theory Spec2Isabelle
  imports Complex_Main
begin

section \<open>Shared vocabulary of the three processes\<close>

text \<open>
  The repository consists of three Python programs that cooperate through a Redis server:
  \<^verbatim>\<open>cameraSensor/main.py\<close> (presence monitor), \<^verbatim>\<open>pinGui/main.py\<close> (control panel) and
  \<^verbatim>\<open>pinGui/threads.py\<close> with \<^verbatim>\<open>pinGui/instasolution.py\<close> (dispatch worker and remote alarm
  client). Every method is embedded as a function on an explicit state. A Python exception
  that the method does not catch is the outcome \<open>Raised\<close>; the state reached when the
  exception left the method is returned with it, since the object keeps the fields that were
  assigned before the raise.
\<close>

datatype error =
  ConnectionError | AttributeError | ValueError | JSONDecodeError | KeyError | TypeError

datatype 'a outcome = Returned 'a | Raised error

datatype level = DEBUG | INFO | WARNING | ERROR

text \<open>
  What a function does to the outside world, in program order: sleeps (seconds), logger
  calls (level and the constant part of the message), threads it starts, write commands sent
  to the store (\<^verbatim>\<open>set\<close> with its key, \<^verbatim>\<open>flushall\<close>), HTTP requests (the path below the
  configured API URL), files written. \<open>Enter\<close> records that a function was entered, with
  its argument. Calls of \<^verbatim>\<open>print\<close> are not recorded.
\<close>

datatype effect =
    Sleep real
  | Log level string
  | StartCompareThread
  | StoreSet string
  | StoreFlush
  | Enter string string
  | Post string
  | WriteFile string

subsection \<open>The Redis store\<close>

text \<open>
  The three keys the programs use. \<open>up\<close> says whether the server answers: a call on a
  connection whose server does not answer raises \<^verbatim>\<open>redis.ConnectionError\<close>. The only
  writer of \<^verbatim>\<open>trigger_status\<close> is \<^verbatim>\<open>Insta.set_status\<close>, called with the integers 0 and 1, so
  the key holds the decimal text of an integer and \<^verbatim>\<open>ast.literal_eval\<close> of it gives that
  integer back; the key is modelled by the integer. \<^verbatim>\<open>frame\<close> holds the JSON text of an
  object with the fields \<^verbatim>\<open>timestamp\<close> and \<^verbatim>\<open>frame\<close>, modelled by the pair of both.
\<close>

record store =
  up :: bool
  k_trigger_status :: "int option"
  k_trigger_dev :: "string option"
  k_frame :: "(string \<times> string) option"

definition flushall :: "store \<Rightarrow> store outcome" where
  "flushall st =
     (if up st
      then Returned (st\<lparr>k_trigger_status := None, k_trigger_dev := None, k_frame := None\<rparr>)
      else Raised ConnectionError)"

definition set_trigger_status :: "int \<Rightarrow> store \<Rightarrow> store outcome" where
  "set_trigger_status v st =
     (if up st then Returned (st\<lparr>k_trigger_status := Some v\<rparr>) else Raised ConnectionError)"

definition set_trigger_dev :: "string \<Rightarrow> store \<Rightarrow> store outcome" where
  "set_trigger_dev v st =
     (if up st then Returned (st\<lparr>k_trigger_dev := Some v\<rparr>) else Raised ConnectionError)"

definition set_frame :: "string \<times> string \<Rightarrow> store \<Rightarrow> store outcome" where
  "set_frame v st =
     (if up st then Returned (st\<lparr>k_frame := Some v\<rparr>) else Raised ConnectionError)"

definition exists_trigger_status :: "store \<Rightarrow> bool outcome" where
  "exists_trigger_status st =
     (if up st then Returned (k_trigger_status st \<noteq> None) else Raised ConnectionError)"

definition get_trigger_status :: "store \<Rightarrow> int option outcome" where
  "get_trigger_status st =
     (if up st then Returned (k_trigger_status st) else Raised ConnectionError)"

definition get_trigger_dev :: "store \<Rightarrow> string option outcome" where
  "get_trigger_dev st =
     (if up st then Returned (k_trigger_dev st) else Raised ConnectionError)"

definition get_frame :: "store \<Rightarrow> (string \<times> string) option outcome" where
  "get_frame st =
     (if up st then Returned (k_frame st) else Raised ConnectionError)"

section \<open>The control panel: \<^verbatim>\<open>pinGui/main.py\<close>\<close>

datatype image =
    Stars0 | Stars1 | Stars2 | Stars3 | Stars4 | StarsG | StarsR
  | CameraOff | CameraOn
  | Dots nat

text \<open>
  The fields of \<^verbatim>\<open>PinGuiApp\<close> that its methods read or write. \<open>display\<close>, \<open>status_bar\<close>
  and \<open>progress\<close> hold the image the label was last configured with; \<open>fullscreen\<close> is the
  \<^verbatim>\<open>-fullscreen\<close> attribute of the root window; \<open>redis\<close> is the store behind
  \<^verbatim>\<open>insta_thread.redisToIs.r\<close>.
\<close>

record gui =
  pin_entry :: string
  cooldown :: bool
  cooldown_counter :: int
  stop_cooldown :: bool
  alarm_status :: bool
  full_screen_state :: bool
  fullscreen :: bool
  display :: image
  status_bar :: image
  progress :: image
  on_off :: string
  silent :: string
  resize :: string
  alarm_queue :: "string list"
  redis :: store

text \<open>
  A method runs on the fields and appends to the trace of effects. While a method sleeps,
  the other threads of the process run: \<open>env n\<close> is what they do to the fields during the
  \<open>n\<close>-th sleep of the method (in \<^verbatim>\<open>do_cooldown\<close>, the sleep of tick \<open>n\<close>). They cannot
  touch the trace.
\<close>

type_synonym world = "gui \<times> effect list"

type_synonym interference = "nat \<Rightarrow> gui \<Rightarrow> gui"

definition sleep :: "interference \<Rightarrow> nat \<Rightarrow> real \<Rightarrow> world \<Rightarrow> world" where
  "sleep env n d w = (env n (fst w), snd w @ [Sleep d])"

definition logger :: "level \<Rightarrow> string \<Rightarrow> 'a \<times> effect list \<Rightarrow> 'a \<times> effect list" where
  "logger l m w = (fst w, snd w @ [Log l m])"

subsection \<open>\<^verbatim>\<open>pressed\<close>\<close>

text \<open>The ten one-character strings of the list that \<^verbatim>\<open>pressed\<close> tests its key against.\<close>

definition digit_keys :: "string list" where
  "digit_keys = map (\<lambda>c. [c]) ''1234567890''"

definition pressed :: "string \<Rightarrow> world \<Rightarrow> world" where
  "pressed pressed_key w =
     (let s = fst w; tr = snd w in
      if pressed_key \<in> set digit_keys then
        (let s1 = (if length (pin_entry s) = 0 then s\<lparr>display := Stars1\<rparr> else s);
             s2 = (if length (pin_entry s1) = 1 then s1\<lparr>display := Stars2\<rparr> else s1);
             s3 = (if length (pin_entry s2) = 2 then s2\<lparr>display := Stars3\<rparr> else s2);
             s4 = (if length (pin_entry s3) = 3 then s3\<lparr>display := Stars4\<rparr> else s3);
             s5 = (if length (pin_entry s4) > 3
                   then s4\<lparr>display := StarsR, pin_entry := '''', display := Stars1\<rparr>
                   else s4)
         in (s5\<lparr>pin_entry := pin_entry s5 @ pressed_key\<rparr>, tr))
      else if pressed_key = ''del'' then (s\<lparr>display := Stars0, pin_entry := ''''\<rparr>, tr)
      else if pressed_key = ''ok'' then (s, tr @ [StartCompareThread])
      else (s, tr))"

text \<open>
  The keypad as the Tk main loop drives it: one \<open>Press\<close> per button, in order. The
  comparison threads started by earlier presses of \<^verbatim>\<open>ok\<close> run beside it; the only thing they
  do to \<open>pin_entry\<close> is to assign the empty string (\<^verbatim>\<open>compare_pin\<close>, last line, and
  \<^verbatim>\<open>do_cooldown\<close>, first line), and \<open>ThreadReset\<close> is such an assignment landing between two
  presses. \<open>compared\<close> lists the buffer at each press of \<^verbatim>\<open>ok\<close>: the value the comparison
  that is started there finds.
\<close>

datatype event = Press string | ThreadReset

fun step :: "event \<Rightarrow> world \<Rightarrow> world" where
  "step (Press k) w = pressed k w"
| "step ThreadReset w = ((fst w)\<lparr>pin_entry := ''''\<rparr>, snd w)"

fun keypad_run :: "event list \<Rightarrow> world \<Rightarrow> world" where
  "keypad_run [] w = w"
| "keypad_run (e # es) w = keypad_run es (step e w)"

fun compared :: "event list \<Rightarrow> world \<Rightarrow> string list" where
  "compared [] w = []"
| "compared (e # es) w =
     (if e = Press ''ok'' then [pin_entry (fst w)] else []) @ compared es (step e w)"

subsection \<open>\<^verbatim>\<open>do_cooldown\<close>\<close>

fun cooldown_ticks :: "interference \<Rightarrow> nat list \<Rightarrow> world \<Rightarrow> world" where
  "cooldown_ticks env [] w = w"
| "cooldown_ticks env (i # is) w =
     (let w1 = ((fst w)\<lparr>progress := Dots i\<rparr>, snd w);
          w2 = sleep env i 1 w1;
          w3 = (if i = 9 then ((fst w2)\<lparr>progress := Dots 0\<rparr>, snd w2) else w2)
      in cooldown_ticks env is w3)"

text \<open>The statements of \<^verbatim>\<open>do_cooldown\<close> before its loop.\<close>

definition cooldown_begin :: "world \<Rightarrow> world" where
  "cooldown_begin w =
     ((fst w)\<lparr>pin_entry := '''', display := StarsG,
              cooldown_counter := cooldown_counter (fst w) + 1\<rparr>, snd w)"

definition do_cooldown :: "interference \<Rightarrow> world \<Rightarrow> bool \<times> world" where
  "do_cooldown env w =
     (let w2 = cooldown_ticks env [1..<10] (cooldown_begin w);
          s2 = fst w2
      in if \<not> stop_cooldown s2
         then (True, (s2\<lparr>stop_cooldown := False, cooldown_counter := 0\<rparr>, snd w2))
         else (False, (s2\<lparr>stop_cooldown := False, cooldown_counter := 0\<rparr>, snd w2)))"

subsection \<open>Starting and stopping the alarm system\<close>

text \<open>\<^verbatim>\<open>InstaThreads.flusher\<close>, that is \<^verbatim>\<open>Insta.clear_redis\<close>.\<close>

definition flusher :: "world \<Rightarrow> unit outcome \<times> world" where
  "flusher w =
     (case flushall (redis (fst w)) of
        Raised e \<Rightarrow> (Raised e, w)
      | Returned st \<Rightarrow>
          (Returned (),
           logger DEBUG ''Redis was cleared'' ((fst w)\<lparr>redis := st\<rparr>, snd w @ [StoreFlush])))"

text \<open>\<^verbatim>\<open>InstaThreads.change_status\<close>, that is \<^verbatim>\<open>Insta.set_status\<close>.\<close>

definition change_status :: "int \<Rightarrow> world \<Rightarrow> unit outcome \<times> world" where
  "change_status new_status w =
     (case set_trigger_status new_status (redis (fst w)) of
        Raised e \<Rightarrow> (Raised e, w)
      | Returned st \<Rightarrow>
          (Returned (),
           logger DEBUG ''Status was updated to ''
             ((fst w)\<lparr>redis := st\<rparr>, snd w @ [StoreSet ''trigger_status''])))"

definition toggle_full_screen :: "gui \<Rightarrow> gui" where
  "toggle_full_screen s = s\<lparr>fullscreen := full_screen_state s, full_screen_state := False\<rparr>"

definition quit_full_screen :: "gui \<Rightarrow> gui" where
  "quit_full_screen s = s\<lparr>fullscreen := full_screen_state s, full_screen_state := True\<rparr>"

definition change_screen_state :: "world \<Rightarrow> world" where
  "change_screen_state w =
     (if full_screen_state (fst w) then (toggle_full_screen (fst w), snd w)
      else logger DEBUG ''esc full screen'' (quit_full_screen (fst w), snd w))"

definition start_redis_script :: "string \<Rightarrow> world \<Rightarrow> unit outcome \<times> world" where
  "start_redis_script alarm_kind w =
     (case flusher w of
        (Raised e, w1) \<Rightarrow> (Raised e, w1)
      | (Returned _, w1) \<Rightarrow>
          (let s2 = (fst w1)\<lparr>alarm_queue := alarm_queue (fst w1) @ [alarm_kind]\<rparr>;
               s3 = (if full_screen_state s2 then toggle_full_screen s2 else s2)
           in case change_status 1 (s3, snd w1) of
                (Raised e, w4) \<Rightarrow> (Raised e, w4)
              | (Returned _, w4) \<Rightarrow> (Returned (), logger INFO ''alarm system started'' w4)))"

definition start_sos :: "world \<Rightarrow> world" where
  "start_sos w =
     logger INFO ''sos alarm was send''
       ((fst w)\<lparr>alarm_queue := alarm_queue (fst w) @ [''sos'']\<rparr>, snd w)"

definition stop_redis_script :: "world \<Rightarrow> unit outcome \<times> world" where
  "stop_redis_script w =
     (let s1 = (fst w)\<lparr>alarm_queue := alarm_queue (fst w) @ [''''], status_bar := CameraOff\<rparr>
      in case change_status 0 (s1, snd w) of
           (Raised e, w2) \<Rightarrow> (Raised e, w2)
         | (Returned _, w2) \<Rightarrow> (Returned (), logger WARNING ''alarm system stopped'' w2))"

subsection \<open>\<^verbatim>\<open>compare_pin\<close>\<close>

text \<open>
  \<^verbatim>\<open>bcrypt.verify(secret, hash)\<close> of passlib is a parameter: it answers \<^verbatim>\<open>True\<close> or
  \<^verbatim>\<open>False\<close>, or raises (a \<^verbatim>\<open>ValueError\<close> on a hash it cannot parse).
\<close>

datatype vres = Verified bool | VerifyError

type_synonym verifier = "string \<Rightarrow> string \<Rightarrow> vres"

text \<open>The last two statements of \<^verbatim>\<open>compare_pin\<close>.\<close>

definition reset_entry :: "world \<Rightarrow> unit outcome \<times> world" where
  "reset_entry w = (Returned (), ((fst w)\<lparr>display := Stars0, pin_entry := ''''\<rparr>, snd w))"

definition on_off_branch :: "interference \<Rightarrow> world \<Rightarrow> unit outcome \<times> world" where
  "on_off_branch env w =
     (if alarm_status (fst w) then
        (case stop_redis_script w of
           (Raised e, w1) \<Rightarrow> (Raised e, w1)
         | (Returned _, w1) \<Rightarrow> reset_entry ((fst w1)\<lparr>alarm_status := False\<rparr>, snd w1))
      else if cooldown_counter (fst w) \<le> 0 then
        (let (c, w1) = do_cooldown env w;
             w2 = ((fst w1)\<lparr>cooldown := c\<rparr>, snd w1)
         in if c then
              (case start_redis_script ''alarm'' w2 of
                 (Raised e, w3) \<Rightarrow> (Raised e, w3)
               | (Returned _, w3) \<Rightarrow>
                   reset_entry ((fst w3)\<lparr>status_bar := CameraOn, alarm_status := True\<rparr>, snd w3))
            else reset_entry w2)
      else
        reset_entry
          ((fst w)\<lparr>stop_cooldown := True, cooldown_counter := 0, display := Stars0,
                   status_bar := CameraOff\<rparr>, snd w))"

definition sos_branch :: "interference \<Rightarrow> world \<Rightarrow> unit outcome \<times> world" where
  "sos_branch env w =
     (let w1 = logger INFO ''SOS alarm sent'' (start_sos w);
          w2 = sleep env 1 0.5 ((fst w1)\<lparr>progress := Dots 5\<rparr>, snd w1);
          w3 = sleep env 2 1 ((fst w2)\<lparr>progress := Dots 9\<rparr>, snd w2)
      in reset_entry ((fst w3)\<lparr>progress := Dots 0\<rparr>, snd w3))"

definition wrong_branch :: "interference \<Rightarrow> world \<Rightarrow> unit outcome \<times> world" where
  "wrong_branch env w =
     reset_entry (sleep env 1 1 ((fst w)\<lparr>display := StarsR\<rparr>, snd w))"

definition compare_pin :: "verifier \<Rightarrow> interference \<Rightarrow> world \<Rightarrow> unit outcome \<times> world" where
  "compare_pin verify env w =
     (case verify (pin_entry (fst w)) (on_off (fst w)) of
        VerifyError \<Rightarrow> (Raised ValueError, w)
      | Verified True \<Rightarrow> on_off_branch env w
      | Verified False \<Rightarrow>
          (case verify (pin_entry (fst w)) (silent (fst w)) of
             VerifyError \<Rightarrow> (Raised ValueError, w)
           | Verified True \<Rightarrow> sos_branch env w
           | Verified False \<Rightarrow>
               (case verify (pin_entry (fst w)) (resize (fst w)) of
                  VerifyError \<Rightarrow> (Raised ValueError, w)
                | Verified True \<Rightarrow> reset_entry (change_screen_state w)
                | Verified False \<Rightarrow> wrong_branch env w)))"

text \<open>
  Whether one of the verifications that \<^verbatim>\<open>compare_pin\<close> performs on the fields \<open>s\<close> raises:
  the one against \<open>on_off\<close>, or after a mismatch there the one against \<open>silent\<close>, or after a
  mismatch there too the one against \<open>resize\<close>.
\<close>

definition verify_raises :: "verifier \<Rightarrow> gui \<Rightarrow> bool" where
  "verify_raises verify s \<longleftrightarrow>
     verify (pin_entry s) (on_off s) = VerifyError \<or>
     verify (pin_entry s) (on_off s) = Verified False \<and>
       (verify (pin_entry s) (silent s) = VerifyError \<or>
        verify (pin_entry s) (silent s) = Verified False \<and>
          verify (pin_entry s) (resize s) = VerifyError)"

text \<open>
  The fields as \<^verbatim>\<open>__init__\<close> leaves them, for the three hashes of the settings and a store.
  Its trace starts with what \<^verbatim>\<open>Insta.__init__\<close> logs after its \<^verbatim>\<open>ping\<close> of the store, when
  \<^verbatim>\<open>__init__\<close> creates the worker thread.
\<close>

definition PinGuiApp_init :: "string \<Rightarrow> string \<Rightarrow> string \<Rightarrow> store \<Rightarrow> world" where
  "PinGuiApp_init h_on_off h_silent h_resize st =
     (\<lparr>pin_entry = '''', cooldown = False, cooldown_counter = 0, stop_cooldown = False,
       alarm_status = False, full_screen_state = False, fullscreen = True,
       display = Stars0, status_bar = CameraOff, progress = Dots 0,
       on_off = h_on_off, silent = h_silent, resize = h_resize,
       alarm_queue = [], redis = st\<rparr>,
      [if up st then Log DEBUG ''Redis is available''
       else Log WARNING ''Redis is unavailable'',
       Log DEBUG ''Alarm app window was opened.''])"

subsection \<open>Inputs for the examples of the control panel\<close>

text \<open>
  A stand-in for \<^verbatim>\<open>bcrypt.verify\<close>: a hash is the text \<^verbatim>\<open>$2b$\<close> followed by the secret, and
  a text that does not start with \<^verbatim>\<open>$2b$\<close> is not a hash, on which the verification raises.
\<close>

definition verify_toy :: verifier where
  "verify_toy secret hash =
     (if take 4 hash = ''$2b$'' then Verified (drop 4 hash = secret) else VerifyError)"

definition no_interference :: interference where
  "no_interference n s = s"

definition store_empty :: store where
  "store_empty = \<lparr>up = True, k_trigger_status = None, k_trigger_dev = None, k_frame = None\<rparr>"

text \<open>A panel whose three PINs are 1234, 9999 and 0000.\<close>

definition panel_example :: world where
  "panel_example = PinGuiApp_init ''$2b$1234'' ''$2b$9999'' ''$2b$0000'' store_empty"

text \<open>A panel whose settings hold a text that is not a hash for the arm/disarm PIN.\<close>

definition panel_bad_hash :: world where
  "panel_bad_hash = PinGuiApp_init ''1234'' ''$2b$9999'' ''$2b$0000'' store_empty"

text \<open>
  The operator typing a PIN and pressing \<^verbatim>\<open>ok\<close>, with the comparison thread that the press
  starts run to its end.
\<close>

definition confirm :: "string list \<Rightarrow> interference \<Rightarrow> world \<Rightarrow> unit outcome \<times> world" where
  "confirm ks env w = compare_pin verify_toy env (keypad_run (map Press (ks @ [''ok''])) w)"

text \<open>
  Interference with a countdown: during the sleep of tick 1 the operator types the arm/disarm
  PIN again and confirms it.
\<close>

definition reconfirm :: interference where
  "reconfirm n s =
     (if n = 1
      then fst (snd (confirm [''1'', ''2'', ''3'', ''4''] no_interference (s, [])))
      else s)"

section \<open>The presence monitor: \<^verbatim>\<open>cameraSensor/main.py\<close>\<close>

text \<open>
  The module-level variables \<^verbatim>\<open>timeout\<close> (from the settings), \<^verbatim>\<open>runtime\<close> (initialised to 0)
  and \<^verbatim>\<open>r\<close> (the store, here \<open>r_store\<close>), the device name of the settings, and the two local
  variables of \<^verbatim>\<open>main\<close> that live across iterations of its loop.
\<close>

record cam =
  timeout :: real
  runtime :: real
  dev :: string
  is_last_frame :: int
  trigger_status :: int
  r_store :: store

type_synonym camw = "cam \<times> effect list"

text \<open>
  What the surroundings give to one call of \<^verbatim>\<open>save_image\<close>: the base64 text of the encoded
  image, the timestamp text of \<^verbatim>\<open>datetime.now()\<close>, and \<open>during_wait\<close>, what the other
  processes do to the store between the entry of \<^verbatim>\<open>save_image\<close> and its read of
  \<^verbatim>\<open>trigger_status\<close>.
\<close>

record save_env =
  im_b64 :: string
  curdate :: string
  during_wait :: "store \<Rightarrow> store"

text \<open>The first statements of \<^verbatim>\<open>save_image\<close>: the wait for the rest of the quiet window.\<close>

definition wait_timeout :: "camw \<Rightarrow> camw" where
  "wait_timeout w =
     (if timeout (fst w) - runtime (fst w) \<ge> 0
      then (fst w, snd w @ [Sleep (timeout (fst w) - runtime (fst w))])
      else w)"

definition save_image :: "save_env \<Rightarrow> camw \<Rightarrow> unit outcome \<times> camw" where
  "save_image e w =
     (let c = fst (wait_timeout w);
          tr1 = snd (wait_timeout w);
          c1 = c\<lparr>r_store := during_wait e (r_store c)\<rparr>;
          frame_json = (curdate e, im_b64 e)
      in case get_trigger_status (r_store c1) of
           Raised err \<Rightarrow> (Raised err, (c1, tr1))
         | Returned None \<Rightarrow> (Raised AttributeError, (c1, tr1))
         | Returned (Some status) \<Rightarrow>
             if status = 1 then
               (case set_trigger_dev (dev c1) (r_store c1) of
                  Raised err \<Rightarrow> (Raised err, (c1, tr1))
                | Returned st1 \<Rightarrow>
                    (case set_frame frame_json st1 of
                       Raised err \<Rightarrow>
                         (Raised err, (c1\<lparr>r_store := st1\<rparr>, tr1 @ [StoreSet ''trigger_dev'']))
                     | Returned st2 \<Rightarrow>
                         (Returned (),
                          logger INFO ''Frame saved to redis.''
                            (logger DEBUG ''Runtime: ''
                               (c1\<lparr>r_store := st2\<rparr>,
                                tr1 @ [StoreSet ''trigger_dev'', StoreSet ''frame''])))))
             else
               (Returned (),
                logger INFO ''Person was detected, but system was deactivated'' (c1, tr1)))"

text \<open>
  What the surroundings give to one call of \<^verbatim>\<open>detect_person\<close>: the two readings of
  \<^verbatim>\<open>time.time()\<close> around \<^verbatim>\<open>net.forward\<close>, and the outcome of the detector after the
  confidence filter and the non-maximum suppression: for each index that
  \<^verbatim>\<open>cv.dnn.NMSBoxes\<close> keeps, in order, the class name \<^verbatim>\<open>classes[classIDs[i]]\<close>, with what the
  call of \<^verbatim>\<open>save_image\<close> for that index is given.
\<close>

record det_env =
  start_time :: real
  end_time :: real
  labels :: "(string \<times> save_env) list"

fun save_persons :: "(string \<times> save_env) list \<Rightarrow> camw \<Rightarrow> unit outcome \<times> camw" where
  "save_persons [] w = (Returned (), w)"
| "save_persons (l # ls) w =
     (if fst l = ''person'' then
        (case save_image (snd l) (logger WARNING ''Person detected!'' w) of
           (Raised err, w1) \<Rightarrow> (Raised err, w1)
         | (Returned _, w1) \<Rightarrow> save_persons ls w1)
      else save_persons ls w)"

text \<open>
  \<^verbatim>\<open>detect_person\<close> assigns \<^verbatim>\<open>runtime = end_time - start_time\<close> without a \<^verbatim>\<open>global\<close>
  declaration: the assignment makes a local variable of the function (\<open>runtime_local\<close>
  here), and the module-level \<^verbatim>\<open>runtime\<close> that \<^verbatim>\<open>save_image\<close> reads keeps its value.
\<close>

definition detect_person :: "det_env \<Rightarrow> camw \<Rightarrow> unit outcome \<times> camw" where
  "detect_person d w =
     (let w1 = (fst w, snd w @ [Enter ''detect_person'' '''']);
          runtime_local = end_time d - start_time d
      in save_persons (labels d) w1)"

text \<open>
  One iteration of the loop of \<^verbatim>\<open>main\<close>. \<open>before\<close> is what the other processes did to the
  store since the previous iteration; \<open>det\<close> is used when the iteration runs the detector.
  The frame grabbed from the camera is taken as given.
\<close>

record iter_env =
  before :: "store \<Rightarrow> store"
  det :: det_env

definition main_iteration :: "iter_env \<Rightarrow> camw \<Rightarrow> unit outcome \<times> camw" where
  "main_iteration e w =
     (let c = (fst w)\<lparr>r_store := before e (r_store (fst w))\<rparr> in
      case exists_trigger_status (r_store c) of
        Raised err \<Rightarrow> (Raised err, (c, snd w))
      | Returned ex \<Rightarrow>
          (case (if ex then
                   (case get_trigger_status (r_store c) of
                      Raised err \<Rightarrow> Raised err
                    | Returned None \<Rightarrow> Raised AttributeError
                    | Returned (Some v) \<Rightarrow> Returned (c\<lparr>trigger_status := v\<rparr>))
                 else Returned c) of
             Raised err \<Rightarrow> (Raised err, (c, snd w))
           | Returned c1 \<Rightarrow>
               if trigger_status c1 = 1 then
                 (if is_last_frame c1 \<ge> 5
                  then detect_person (det e) (c1\<lparr>is_last_frame := 0\<rparr>, snd w)
                  else (Returned (), (c1\<lparr>is_last_frame := is_last_frame c1 + 1\<rparr>, snd w)))
               else (Returned (), (c1, snd w))))"

text \<open>
  The loop \<^verbatim>\<open>while True\<close> over a finite prefix of its iterations, one \<open>iter_env\<close> each:
  \<open>Returned\<close> says that the loop is still running after them, \<open>Raised\<close> that an exception
  left \<^verbatim>\<open>main\<close> and ended it.
\<close>

fun main_loop :: "iter_env list \<Rightarrow> camw \<Rightarrow> unit outcome \<times> camw" where
  "main_loop [] w = (Returned (), w)"
| "main_loop (e # es) w =
     (case main_iteration e w of
        (Raised err, w1) \<Rightarrow> (Raised err, w1)
      | (Returned _, w1) \<Rightarrow> main_loop es w1)"

text \<open>The state in which \<^verbatim>\<open>main\<close> enters its loop.\<close>

definition main_start :: "real \<Rightarrow> string \<Rightarrow> store \<Rightarrow> camw" where
  "main_start t d st =
     (\<lparr>timeout = t, runtime = 0, dev = d, is_last_frame = 0, trigger_status = 0,
       r_store = st\<rparr>,
      [Log INFO ''Service started: Detecting people...''])"

subsection \<open>Inputs for the examples of the presence monitor\<close>

definition store_armed :: store where
  "store_armed = store_empty\<lparr>k_trigger_status := Some 1\<rparr>"

text \<open>What other processes may do to the store.\<close>

definition untouched :: "store \<Rightarrow> store" where
  "untouched st = st"

definition disarmed_meanwhile :: "store \<Rightarrow> store" where
  "disarmed_meanwhile st = st\<lparr>k_trigger_status := Some 0\<rparr>"

definition went_down :: "store \<Rightarrow> store" where
  "went_down st = st\<lparr>up := False\<rparr>"

definition came_back :: "store \<Rightarrow> store" where
  "came_back st = st\<lparr>up := True\<rparr>"

definition flushed :: "store \<Rightarrow> store" where
  "flushed st = st\<lparr>k_trigger_status := None, k_trigger_dev := None, k_frame := None\<rparr>"

text \<open>A frame taken while nothing else happens, and one during whose wait the panel disarms.\<close>

definition shot :: save_env where
  "shot = \<lparr>im_b64 = ''/9j/4AAQ'', curdate = ''2021_05_04_12_00_00'', during_wait = untouched\<rparr>"

definition shot_disarmed :: save_env where
  "shot_disarmed = shot\<lparr>during_wait := disarmed_meanwhile\<rparr>"

text \<open>A frame during whose wait the store is flushed.\<close>

definition shot_flushed :: save_env where
  "shot_flushed = shot\<lparr>during_wait := flushed\<rparr>"

text \<open>An inference that takes 7 seconds and finds a dog and a person.\<close>

definition slow_detection :: det_env where
  "slow_detection =
     \<lparr>start_time = 100, end_time = 107, labels = [(''dog'', shot), (''person'', shot)]\<rparr>"

text \<open>An inference that finds nothing.\<close>

definition nothing_seen :: det_env where
  "nothing_seen = \<lparr>start_time = 100, end_time = 101, labels = []\<rparr>"

text \<open>
  Polls of the loop: nothing changed since the last one; the store stopped answering; the
  store answers again; the store was flushed.
\<close>

definition poll :: iter_env where
  "poll = \<lparr>before = untouched, det = nothing_seen\<rparr>"

definition poll_down :: iter_env where
  "poll_down = \<lparr>before = went_down, det = nothing_seen\<rparr>"

definition poll_back :: iter_env where
  "poll_back = \<lparr>before = came_back, det = nothing_seen\<rparr>"

definition poll_flushed :: iter_env where
  "poll_flushed = \<lparr>before = flushed, det = nothing_seen\<rparr>"

text \<open>A monitor with a quiet window of 5 seconds on an armed system.\<close>

definition monitor_example :: camw where
  "monitor_example = main_start 5 ''door'' store_armed"

section \<open>The remote alarm client: \<^verbatim>\<open>pinGui/instasolution.py\<close>\<close>

text \<open>
  The fields of \<^verbatim>\<open>Insta\<close>, with the two event ids of the settings; \<open>insta_r\<close> is
  \<^verbatim>\<open>self.r\<close>.
\<close>

record insta =
  sensor_activator :: "string option"
  alarm_system_status :: "string option"
  alarm_event_id :: string
  sos_event_id :: string
  insta_r :: store

type_synonym instaw = "insta \<times> effect list"

text \<open>
  What \<^verbatim>\<open>requests.request\<close> does: it raises a \<^verbatim>\<open>Timeout\<close>, another \<^verbatim>\<open>RequestException\<close>, or
  some other exception, or it returns a response with a status code and a text. The text is
  modelled by what \<^verbatim>\<open>json.loads\<close> makes of it: not JSON, or an object with or without the
  field \<^verbatim>\<open>sessionId\<close>, whose field \<^verbatim>\<open>user\<close> is missing or an object without \<^verbatim>\<open>id\<close>
  (\<open>NoUser\<close>: the subscript raises \<^verbatim>\<open>KeyError\<close>), is \<^verbatim>\<open>null\<close> (\<open>NullUser\<close>: the subscript
  raises \<^verbatim>\<open>TypeError\<close>), or is an object with an \<^verbatim>\<open>id\<close>.
\<close>

datatype user = NoUser | NullUser | UserId string

datatype body = Unparsable | Fields "string option" user

datatype reply = Timeout | RequestException | OtherException | Response int body

text \<open>
  What the surroundings give to one call of \<^verbatim>\<open>check_alarm_queue\<close>: \<open>arrive\<close>, what the other
  processes did to the store before the call reads it; the replies to the login request and
  to the episode request; and whether decoding the frame and writing its file succeeds
  (the body of the \<^verbatim>\<open>try\<close> in \<^verbatim>\<open>save_frame\<close>).
\<close>

record call_env =
  arrive :: "store \<Rightarrow> store"
  login :: reply
  episode :: reply
  fs_ok :: bool

text \<open>The result \<^verbatim>\<open>(-1, -1)\<close> of \<^verbatim>\<open>get_session_id\<close> is \<open>None\<close>.\<close>

definition get_session_id :: "reply \<Rightarrow> instaw \<Rightarrow> (string \<times> string) option outcome \<times> instaw" where
  "get_session_id rp w =
     (let w0 = (fst w, snd w @ [Post ''system/session?embedded=user'']) in
      case rp of
        Timeout \<Rightarrow>
          (Returned None,
           logger ERROR
             ''There was a Timeout error while sending the request to get the sessionId: '' w0)
      | RequestException \<Rightarrow>
          (Returned None,
           logger ERROR
             ''There was an error while sending the request to get the sessionId: '' w0)
      | OtherException \<Rightarrow>
          (Returned None,
           logger ERROR
             ''There was an error while sending the request to get the sessionId: '' w0)
      | Response status_code b \<Rightarrow>
          if status_code \<noteq> 200 then
            (Returned None,
             logger DEBUG ''payload: ''
               (logger WARNING ''An error happened when getting / creating session id: ''
                  (logger ERROR ''An error happened when getting / creating session Id: '' w0)))
          else
            (case b of
               Unparsable \<Rightarrow> (Raised JSONDecodeError, w0)
             | Fields None u \<Rightarrow>
                 (Returned None,
                  logger DEBUG ''payload: ''
                    (logger ERROR ''An error happened; No sessionId: '' w0))
             | Fields (Some sid) NoUser \<Rightarrow> (Raised KeyError, w0)
             | Fields (Some sid) NullUser \<Rightarrow> (Raised TypeError, w0)
             | Fields (Some sid) (UserId uid) \<Rightarrow> (Returned (Some (sid, uid)), w0)))"

definition save_frame :: "bool \<Rightarrow> instaw \<Rightarrow> unit outcome \<times> instaw" where
  "save_frame ok w =
     (let w0 = (fst w, snd w @ [Enter ''save_frame'' '''']) in
      case get_frame (insta_r (fst w0)) of
        Raised err \<Rightarrow> (Raised err, w0)
      | Returned (Some frame_obj) \<Rightarrow>
          (let w1 = (if ok
                     then (fst w0, snd w0 @ [WriteFile (''frames/'' @ fst frame_obj @ ''.jpg'')])
                     else logger WARNING ''Save frame error: '' w0)
           in (Returned (), logger INFO ''Successfully triggered the alarm'' w1))
      | Returned None \<Rightarrow>
          (Returned (),
           logger WARNING ''Triggered the alarm without save frame''
             (logger WARNING ''No frame in Redis'' w0)))"

definition get_alarm_type :: "string option \<Rightarrow> instaw \<Rightarrow> string option \<times> instaw" where
  "get_alarm_type alarm_type w =
     (case alarm_type of
        Some t \<Rightarrow>
          if t = ''alarm'' then (Some (alarm_event_id (fst w)), w)
          else if t = ''sos'' then (Some (sos_event_id (fst w)), w)
          else (None, w)
      | None \<Rightarrow>
          (None,
           logger WARNING ''Canceling the alarm triggering''
             (logger WARNING ''Redis key trigger_msg was empty'' w)))"

text \<open>Python's \<^verbatim>\<open>str\<close> of an optional string, as an f-string formats it.\<close>

definition str_of :: "string option \<Rightarrow> string" where
  "str_of x = (case x of None \<Rightarrow> ''None'' | Some t \<Rightarrow> t)"

text \<open>The part of \<^verbatim>\<open>activate_alarm\<close> from the episode request on.\<close>

definition send_event :: "call_env \<Rightarrow> string option \<Rightarrow> instaw \<Rightarrow> unit outcome \<times> instaw" where
  "send_event e event_id w =
     (let w0 = logger DEBUG ''Now sending alarm request'' w;
          w1 = (fst w0, snd w0 @ [Post (''events/'' @ str_of event_id @ ''/episodes'')])
      in case episode e of
           Timeout \<Rightarrow>
             (Returned (),
              logger ERROR ''There was a Timeout error while sending alarm request: '' w1)
         | RequestException \<Rightarrow>
             (Returned (),
              logger ERROR ''There was an error while sending the alarm request: '' w1)
         | OtherException \<Rightarrow>
             (Raised AttributeError,
              logger ERROR ''There was a general error while sending the alarm requests'' w1)
         | Response status_code b \<Rightarrow>
             if status_code \<notin> {200, 201} then
               (if status_code = 400
                then (Returned (), logger DEBUG ''Alarm is still active'' w1)
                else (Returned (),
                      logger DEBUG ''payload: ''
                        (logger WARNING ''An error happened when creating alarm request!'' w1)))
             else save_frame (fs_ok e) w1)"

definition activate_alarm :: "call_env \<Rightarrow> string option \<Rightarrow> instaw \<Rightarrow> unit outcome \<times> instaw" where
  "activate_alarm e alarm_type w =
     (let w0 = logger DEBUG ''Preparing alarm request''
                 (fst w, snd w @ [Enter ''activate_alarm'' (str_of alarm_type)]);
          (event_id, w1) = get_alarm_type alarm_type w0;
          (again, w2) = get_alarm_type alarm_type w1
      in case again of
           None \<Rightarrow>
             (let w3 = logger DEBUG ''Trigger_msg not recognized'' w2 in
              case alarm_type of
                None \<Rightarrow> (Raised TypeError, w3)
              | Some t \<Rightarrow>
                  (Returned (),
                   logger DEBUG ''Canceling the alarm triggering because of event''
                     (logger DEBUG ''Trigger_msg was: '' w3)))
         | Some i \<Rightarrow>
             (case get_session_id (login e) w2 of
                (Raised err, w3) \<Rightarrow> (Raised err, w3)
              | (Returned None, w3) \<Rightarrow>
                  (Returned (),
                   logger ERROR ''Canceling the alarm triggering''
                     (logger ERROR ''Could not get Session Id from IS API'' w3))
              | (Returned (Some session), w3) \<Rightarrow> send_event e event_id w3))"

definition check_alarm_queue :: "call_env \<Rightarrow> string \<Rightarrow> instaw \<Rightarrow> unit outcome \<times> instaw" where
  "check_alarm_queue e status w =
     (let s0 = (fst w)\<lparr>alarm_system_status := Some status,
                       insta_r := arrive e (insta_r (fst w))\<rparr>;
          tr0 = snd w @ [Enter ''check_alarm_queue'' status]
      in case get_trigger_dev (insta_r s0) of
           Raised err \<Rightarrow> (Raised err, (s0, tr0))
         | Returned got \<Rightarrow>
             (let s1 = s0\<lparr>sensor_activator := got\<rparr> in
              if alarm_system_status s1 = Some ''alarm'' \<and> sensor_activator s1 \<noteq> None then
                activate_alarm e (Some ''alarm'')
                  (logger INFO ''Alarmsystem is active and a movement was detected at the ''
                     (s1, tr0))
              else if alarm_system_status s1 = Some ''sos'' then
                activate_alarm e (Some ''sos'') (logger INFO ''SOS alarm was sent!'' (s1, tr0))
              else (Returned (), (s1, tr0))))"

section \<open>The dispatch worker: \<^verbatim>\<open>pinGui/threads.py\<close>\<close>

text \<open>
  The fields of \<^verbatim>\<open>InstaThreads\<close>: \<^verbatim>\<open>alarm_status\<close>, \<^verbatim>\<open>alarm_status_old\<close> and \<^verbatim>\<open>alarm_queue\<close>
  carry the prefix \<open>th_\<close>, since the control panel has fields of the same names.
\<close>

record worker =
  th_alarm_status :: string
  th_alarm_status_old :: string
  th_alarm_queue :: "string list"
  redisToIs :: insta

type_synonym workerw = "worker \<times> effect list"

text \<open>A call of \<^verbatim>\<open>self.redisToIs.check_alarm_queue(self.alarm_status)\<close>.\<close>

definition call_check :: "call_env \<Rightarrow> workerw \<Rightarrow> unit outcome \<times> workerw" where
  "call_check e w =
     (let res = check_alarm_queue e (th_alarm_status (fst w)) (redisToIs (fst w), snd w)
      in (fst res, ((fst w)\<lparr>redisToIs := fst (snd res)\<rparr>, snd (snd res))))"

text \<open>
  One pass through the body of the loop of \<^verbatim>\<open>run\<close>. \<open>arrivals\<close> are the commands the control
  panel has put into the queue since the previous pass; \<open>sos_call\<close> is given to the call of
  \<^verbatim>\<open>check_alarm_queue\<close> inside the branch for \<^verbatim>\<open>sos\<close>, \<open>last_call\<close> to the call that ends the
  pass.
\<close>

record tick_env =
  arrivals :: "string list"
  sos_call :: call_env
  last_call :: call_env

definition tick :: "tick_env \<Rightarrow> workerw \<Rightarrow> unit outcome \<times> workerw" where
  "tick e w =
     (let t0 = (fst w)\<lparr>th_alarm_queue := th_alarm_queue (fst w) @ arrivals e\<rparr> in
      case th_alarm_queue t0 of
        [] \<Rightarrow> call_check (last_call e) (t0, snd w)
      | status # rest \<Rightarrow>
          (let t1 = t0\<lparr>th_alarm_queue := rest\<rparr> in
           if status = ''sos'' then
             (let t2 = t1\<lparr>th_alarm_status_old := th_alarm_status t1\<rparr>;
                  t3 = t2\<lparr>th_alarm_status := status\<rparr>
              in case call_check (sos_call e) (t3, snd w) of
                   (Raised err, w4) \<Rightarrow> (Raised err, w4)
                 | (Returned _, w4) \<Rightarrow>
                     call_check (last_call e)
                       ((fst w4)\<lparr>th_alarm_status := th_alarm_status_old (fst w4)\<rparr>, snd w4))
           else call_check (last_call e) (t1\<lparr>th_alarm_status := status\<rparr>, snd w)))"

text \<open>
  The loop of \<^verbatim>\<open>run\<close> over a finite prefix of its passes; \<open>Raised\<close> says that an exception
  left \<^verbatim>\<open>run\<close> and ended the worker thread.
\<close>

fun worker_run :: "tick_env list \<Rightarrow> workerw \<Rightarrow> unit outcome \<times> workerw" where
  "worker_run [] w = (Returned (), w)"
| "worker_run (e # es) w =
     (case tick e w of
        (Raised err, w1) \<Rightarrow> (Raised err, w1)
      | (Returned _, w1) \<Rightarrow> worker_run es w1)"

subsection \<open>Reading traces and replies\<close>

text \<open>The arguments with which the function \<open>f\<close> was entered according to a trace, in order.\<close>

fun entered :: "string \<Rightarrow> effect list \<Rightarrow> string list" where
  "entered f [] = []"
| "entered f (Enter g a # tr) = (if g = f then a # entered f tr else entered f tr)"
| "entered f (x # tr) = entered f tr"

text \<open>The messages logged at level \<open>l\<close> according to a trace, in order.\<close>

fun logged :: "level \<Rightarrow> effect list \<Rightarrow> string list" where
  "logged l [] = []"
| "logged l (Log k m # tr) = (if k = l then m # logged l tr else logged l tr)"
| "logged l (x # tr) = logged l tr"

text \<open>The paths of the HTTP requests sent according to a trace, in order.\<close>

fun posted :: "effect list \<Rightarrow> string list" where
  "posted [] = []"
| "posted (Post u # tr) = u # posted tr"
| "posted (x # tr) = posted tr"

text \<open>
  The replies on which a call of \<^verbatim>\<open>activate_alarm\<close> raises: a login reply with status 200
  whose text is not JSON (\<^verbatim>\<open>json.loads\<close> raises) or has a \<^verbatim>\<open>sessionId\<close> but no \<^verbatim>\<open>user.id\<close>
  (the subscript raises), and, after a login that gave a session, an episode request that
  raises something other than a \<^verbatim>\<open>RequestException\<close> (\<^verbatim>\<open>response\<close> is still \<^verbatim>\<open>None\<close> when
  its status code is read).
\<close>

fun login_raises :: "reply \<Rightarrow> bool" where
  "login_raises (Response status_code Unparsable) = (status_code = 200)"
| "login_raises (Response status_code (Fields (Some sid) NoUser)) = (status_code = 200)"
| "login_raises (Response status_code (Fields (Some sid) NullUser)) = (status_code = 200)"
| "login_raises rp = False"

fun login_session :: "reply \<Rightarrow> bool" where
  "login_session (Response status_code (Fields (Some sid) (UserId uid))) = (status_code = 200)"
| "login_session rp = False"

definition call_raises :: "call_env \<Rightarrow> bool" where
  "call_raises e \<longleftrightarrow>
     login_raises (login e) \<or> login_session (login e) \<and> episode e = OtherException"

subsection \<open>Inputs for the examples of the worker\<close>

text \<open>The store after the monitor has published a detection.\<close>

definition store_detected :: store where
  "store_detected =
     store_armed\<lparr>k_trigger_dev := Some ''door'',
                 k_frame := Some (''2021_05_04_12_00_00'', ''/9j/4AAQ'')\<rparr>"

definition insta_example :: insta where
  "insta_example =
     \<lparr>sensor_activator = None, alarm_system_status = None, alarm_event_id = ''17'',
      sos_event_id = ''18'', insta_r = store_detected\<rparr>"

text \<open>A worker whose standing command is the standard alarm, with an empty queue.\<close>

definition worker_armed :: workerw where
  "worker_armed =
     (\<lparr>th_alarm_status = ''alarm'', th_alarm_status_old = '''', th_alarm_queue = [],
       redisToIs = insta_example\<rparr>, [])"

text \<open>
  A call whose login gives a session and whose episode is created, and one whose episode
  request is answered with status 400.
\<close>

definition accepted :: call_env where
  "accepted =
     \<lparr>arrive = untouched, login = Response 200 (Fields (Some ''s1'') (UserId ''u1'')),
      episode = Response 201 (Fields None NoUser), fs_ok = True\<rparr>"

definition conflict :: call_env where
  "conflict = accepted\<lparr>episode := Response 400 (Fields None NoUser)\<rparr>"

text \<open>
  A call whose login is answered with status 200 and a text that is not JSON, and one whose
  login request times out.
\<close>

definition garbled :: call_env where
  "garbled = accepted\<lparr>login := Response 200 Unparsable\<rparr>"

definition timed_out :: call_env where
  "timed_out = accepted\<lparr>login := Timeout\<rparr>"

text \<open>A control panel on the store that holds the detection.\<close>

definition panel_detected :: world where
  "panel_detected = PinGuiApp_init ''$2b$1234'' ''$2b$9999'' ''$2b$0000'' store_detected"

text \<open>A pass with nothing new in the queue, and one during which an SOS has arrived.\<close>

definition idle_tick :: tick_env where
  "idle_tick = \<lparr>arrivals = [], sos_call = accepted, last_call = accepted\<rparr>"

definition sos_tick :: tick_env where
  "sos_tick = \<lparr>arrivals = [''sos''], sos_call = accepted, last_call = conflict\<rparr>"

text \<open>
  A pass during which an SOS has arrived and the login of its first call is answered with a
  text that is not JSON, and one in which both logins time out.
\<close>

definition sos_tick_garbled :: tick_env where
  "sos_tick_garbled = \<lparr>arrivals = [''sos''], sos_call = garbled, last_call = accepted\<rparr>"

definition sos_tick_timed_out :: tick_env where
  "sos_tick_timed_out = \<lparr>arrivals = [''sos''], sos_call = timed_out, last_call = timed_out\<rparr>"

section \<open>Properties of the control panel\<close>

subsection \<open>The PIN buffer\<close>

lemma digit_key_length: "k \<in> set digit_keys \<Longrightarrow> length k = 1"
  by (auto simp: digit_keys_def)

lemma pressed_digit_append:
  "k \<in> set digit_keys \<Longrightarrow> length (pin_entry (fst w)) < 4 \<Longrightarrow>
   pin_entry (fst (pressed k w)) = pin_entry (fst w) @ k"
  by (simp add: pressed_def Let_def)

lemma pressed_digit_reset:
  "k \<in> set digit_keys \<Longrightarrow> length (pin_entry (fst w)) \<ge> 4 \<Longrightarrow>
   pin_entry (fst (pressed k w)) = k"
  by (simp add: pressed_def Let_def)

lemma pressed_other:
  "k \<notin> set digit_keys \<Longrightarrow>
   pin_entry (fst (pressed k w)) = (if k = ''del'' then '''' else pin_entry (fst w))"
  by (simp add: pressed_def Let_def)

lemma pressed_bound:
  assumes "length (pin_entry (fst w)) \<le> 4"
  shows "length (pin_entry (fst (pressed k w))) \<le> 4"
proof (cases "k \<in> set digit_keys")
  case True
  note k = digit_key_length [OF True]
  show ?thesis
  proof (cases "length (pin_entry (fst w)) < 4")
    case True
    with \<open>k \<in> set digit_keys\<close> k show ?thesis by (simp add: pressed_digit_append)
  next
    case False
    with \<open>k \<in> set digit_keys\<close> k show ?thesis by (simp add: pressed_digit_reset)
  qed
next
  case False
  with assms show ?thesis by (simp add: pressed_other)
qed

lemma step_bound:
  "length (pin_entry (fst w)) \<le> 4 \<Longrightarrow> length (pin_entry (fst (step e w))) \<le> 4"
  by (cases e) (simp_all add: pressed_bound)

lemma keypad_run_bound:
  "length (pin_entry (fst w)) \<le> 4 \<Longrightarrow> length (pin_entry (fst (keypad_run es w))) \<le> 4"
  by (induction es arbitrary: w) (simp_all add: step_bound)

lemma compared_bound:
  "length (pin_entry (fst w)) \<le> 4 \<Longrightarrow> p \<in> set (compared es w) \<Longrightarrow> length p \<le> 4"
proof (induction es arbitrary: w)
  case Nil
  then show ?case by simp
next
  case (Cons e es)
  from Cons.prems(2) consider "e = Press ''ok''" "p = pin_entry (fst w)"
    | "p \<in> set (compared es (step e w))"
    by (auto split: if_splits)
  then show ?case
  proof cases
    case 1
    with Cons.prems(1) show ?thesis by simp
  next
    case 2
    with Cons.IH [OF step_bound [OF Cons.prems(1)]] show ?thesis by simp
  qed
qed

lemma keypad_run_append: "keypad_run (es @ fs) w = keypad_run fs (keypad_run es w)"
  by (induction es arbitrary: w) simp_all

lemma four_digits:
  assumes "pin_entry (fst w) = ''''" "set ks \<subseteq> set digit_keys" "length ks = 4"
  shows "length (pin_entry (fst (keypad_run (map Press ks) w))) = 4"
proof -
  from assms(3) obtain a b c d where ks: "ks = [a, b, c, d]"
    by (auto simp: length_Suc_conv eval_nat_numeral)
  with assms(2) have m: "a \<in> set digit_keys" "b \<in> set digit_keys" "c \<in> set digit_keys"
    "d \<in> set digit_keys" by auto
  note l = m [THEN digit_key_length]
  have 1: "pin_entry (fst (pressed a w)) = a"
    using m(1) assms(1) by (simp add: pressed_digit_append)
  have 2: "pin_entry (fst (pressed b (pressed a w))) = a @ b"
    using m(2) 1 l by (simp add: pressed_digit_append)
  have 3: "pin_entry (fst (pressed c (pressed b (pressed a w)))) = a @ b @ c"
    using m(3) 2 l by (simp add: pressed_digit_append)
  have 4: "pin_entry (fst (pressed d (pressed c (pressed b (pressed a w))))) = a @ b @ c @ d"
    using m(4) 3 l by (simp add: pressed_digit_append)
  show ?thesis using 4 l by (simp add: ks)
qed

lemma typed_1234:
  "keypad_run (map Press [''1'', ''2'', ''3'', ''4'', ''ok'']) (PinGuiApp_init a b c st) =
   ((fst (PinGuiApp_init a b c st))\<lparr>pin_entry := ''1234'', display := Stars4\<rparr>,
    snd (PinGuiApp_init a b c st) @ [StartCompareThread])"
  by (simp add: pressed_def digit_keys_def PinGuiApp_init_def Let_def)

lemma typed_1235:
  "keypad_run (map Press [''1'', ''2'', ''3'', ''5'', ''ok'']) (PinGuiApp_init a b c st) =
   ((fst (PinGuiApp_init a b c st))\<lparr>pin_entry := ''1235'', display := Stars4\<rparr>,
    snd (PinGuiApp_init a b c st) @ [StartCompareThread])"
  by (simp add: pressed_def digit_keys_def PinGuiApp_init_def Let_def)

text \<open>
  C1. Start from fields whose buffer is empty (as \<^verbatim>\<open>__init__\<close>, \<^verbatim>\<open>del\<close> and every confirm
  handling that ends leave it) and let any sequence \<open>es\<close> of presses of digits, \<^verbatim>\<open>del\<close>,
  \<^verbatim>\<open>ok\<close> and other keys run, with resets by comparison threads anywhere between them. Then
  every comparison that a press of \<^verbatim>\<open>ok\<close> starts finds a buffer of at most 4 characters,
  and so does whoever reads the buffer at any later moment; whenever the buffer holds 4
  digits, the next digit leaves exactly that digit in it; and five digits pressed in a row
  on the empty buffer leave exactly the fifth.
\<close>

theorem pin_entry_at_most_four:
  assumes "pin_entry (fst w) = ''''" and "set ks \<subseteq> set digit_keys" and "length ks = 4"
    and "d \<in> set digit_keys"
  shows "(\<forall>p \<in> set (compared es w). length p \<le> 4) \<and>
         length (pin_entry (fst (keypad_run es w))) \<le> 4 \<and>
         (length (pin_entry (fst (keypad_run es w))) = 4 \<longrightarrow>
            pin_entry (fst (keypad_run (es @ [Press d]) w)) = d) \<and>
         pin_entry (fst (keypad_run (map Press (ks @ [d])) w)) = d"
proof (intro conjI ballI impI)
  fix p assume "p \<in> set (compared es w)"
  moreover from assms(1) have "length (pin_entry (fst w)) \<le> 4" by simp
  ultimately show "length p \<le> 4" by (rule compared_bound [rotated])
next
  from assms(1) have "length (pin_entry (fst w)) \<le> 4" by simp
  then show "length (pin_entry (fst (keypad_run es w))) \<le> 4" by (rule keypad_run_bound)
next
  assume "length (pin_entry (fst (keypad_run es w))) = 4"
  with assms(4) show "pin_entry (fst (keypad_run (es @ [Press d]) w)) = d"
    by (simp add: keypad_run_append pressed_digit_reset)
next
  from four_digits [OF assms(1-3)] assms(4)
  show "pin_entry (fst (keypad_run (map Press (ks @ [d])) w)) = d"
    by (simp add: keypad_run_append pressed_digit_reset)
qed

theorem pin_entry_at_most_four_witness:
  "pin_entry (fst panel_example) = '''' \<and>
   compared (map Press [''1'', ''2'', ''3'', ''4'', ''ok'']) panel_example = [''1234''] \<and>
   length ''1234'' \<le> 4 \<and>
   pin_entry (fst (keypad_run (map Press [''1'', ''2'', ''3'', ''4'', ''5'']) panel_example))
     = ''5''"
proof -
  have 1: "pin_entry (fst panel_example) = ''''"
    by (simp add: panel_example_def PinGuiApp_init_def)
  have 2: "set [''1'', ''2'', ''3'', ''4''] \<subseteq> set digit_keys" "''5'' \<in> set digit_keys"
    by (simp_all add: digit_keys_def)
  have 3: "length [''1'', ''2'', ''3'', ''4''] = 4" by simp
  have 4: "compared (map Press [''1'', ''2'', ''3'', ''4'', ''ok'']) panel_example = [''1234'']"
    by (simp add: panel_example_def PinGuiApp_init_def pressed_def digit_keys_def Let_def)
  from pin_entry_at_most_four [OF 1 2(1) 3 2(2),
      of "map Press [''1'', ''2'', ''3'', ''4'', ''ok'']"] 1 4
  show ?thesis by simp
qed

subsection \<open>The countdown\<close>

lemma cooldown_ticks_trace:
  "snd (cooldown_ticks env is w) = snd w @ replicate (length is) (Sleep 1)"
proof (induction "is" arbitrary: w)
  case Nil
  then show ?case by simp
next
  case (Cons i "is")
  show ?case
    by (simp add: Cons.IH Let_def sleep_def replicate_append_same)
qed

lemma cooldown_ticks_append:
  "cooldown_ticks env (is @ js) w = cooldown_ticks env js (cooldown_ticks env is w)"
  by (induction "is" arbitrary: w) (simp_all add: Let_def)

lemma cooldown_ticks_flag_stays:
  assumes "\<forall>i \<in> set is. \<forall>s. stop_cooldown s \<longrightarrow> stop_cooldown (env i s)"
    and "stop_cooldown (fst w)"
  shows "stop_cooldown (fst (cooldown_ticks env is w))"
  using assms
proof (induction "is" arbitrary: w)
  case Nil
  then show ?case by simp
next
  case (Cons i "is")
  have "stop_cooldown (env i ((fst w)\<lparr>progress := Dots i\<rparr>))"
    using Cons.prems by simp
  then show ?case using Cons.prems(1)
    by (auto simp: Let_def sleep_def intro!: Cons.IH)
qed

lemma do_cooldown_trace:
  "snd (snd (do_cooldown env w)) = snd w @ replicate 9 (Sleep 1)"
  by (simp add: do_cooldown_def Let_def cooldown_ticks_trace cooldown_begin_def)

lemma do_cooldown_result:
  "fst (do_cooldown env w) =
     (\<not> stop_cooldown (fst (cooldown_ticks env [1..<10] (cooldown_begin w))))"
  by (simp add: do_cooldown_def Let_def)

lemma do_cooldown_reset:
  "\<not> stop_cooldown (fst (snd (do_cooldown env w))) \<and>
   cooldown_counter (fst (snd (do_cooldown env w))) = 0"
  by (simp add: do_cooldown_def Let_def)

text \<open>
  C5. Whatever the other threads do during the sleeps of a countdown, \<^verbatim>\<open>do_cooldown\<close> sleeps
  nine times for one second and does nothing else to the outside world; it returns
  \<^verbatim>\<open>False\<close> exactly when \<open>stop_cooldown\<close> is set in the fields as they are after the ninth
  tick; and it leaves \<open>stop_cooldown\<close> cleared and \<open>cooldown_counter\<close> at 0 in both cases.
  In particular, when the flag is set after tick \<open>k\<close> (an abort during any of the nine
  ticks) and nothing clears it during the later ticks, the nine sleeps still take place and
  the result is \<^verbatim>\<open>False\<close>.
\<close>

theorem do_cooldown_waits_all_ticks:
  "snd (snd (do_cooldown env w)) = snd w @ replicate 9 (Sleep 1) \<and>
   fst (do_cooldown env w) =
     (\<not> stop_cooldown (fst (cooldown_ticks env [1..<10] (cooldown_begin w)))) \<and>
   \<not> stop_cooldown (fst (snd (do_cooldown env w))) \<and>
   cooldown_counter (fst (snd (do_cooldown env w))) = 0 \<and>
   (1 \<le> k \<and> k \<le> 9 \<and>
    stop_cooldown (fst (cooldown_ticks env [1..<Suc k] (cooldown_begin w))) \<and>
    (\<forall>i s. k < i \<longrightarrow> stop_cooldown s \<longrightarrow> stop_cooldown (env i s))
    \<longrightarrow> fst (do_cooldown env w) = False)"
proof (intro conjI impI)
  assume a: "1 \<le> k \<and> k \<le> 9 \<and>
    stop_cooldown (fst (cooldown_ticks env [1..<Suc k] (cooldown_begin w))) \<and>
    (\<forall>i s. k < i \<longrightarrow> stop_cooldown s \<longrightarrow> stop_cooldown (env i s))"
  then have "1 \<le> Suc k" and "Suc k + (9 - k) = 10" by simp_all
  from upt_add_eq_append [OF this(1), of "9 - k"] this(2)
  have split: "[1..<10] = [1..<Suc k] @ [Suc k..<10]" by simp
  have "stop_cooldown (fst (cooldown_ticks env [Suc k..<10]
          (cooldown_ticks env [1..<Suc k] (cooldown_begin w))))"
    by (rule cooldown_ticks_flag_stays) (use a in auto)
  moreover have "cooldown_ticks env [1..<10] (cooldown_begin w) =
      cooldown_ticks env [Suc k..<10] (cooldown_ticks env [1..<Suc k] (cooldown_begin w))"
    by (simp only: split cooldown_ticks_append)
  ultimately show "fst (do_cooldown env w) = False"
    by (simp only: do_cooldown_result simp_thms)
qed (simp_all add: do_cooldown_trace do_cooldown_reset do_cooldown_result)

lemma reconfirm_aborts:
  "cooldown_counter s = 1 \<Longrightarrow> \<not> alarm_status s \<Longrightarrow> on_off s = ''$2b$1234'' \<Longrightarrow>
   pin_entry s = '''' \<Longrightarrow> stop_cooldown (reconfirm 1 s)"
  by (simp add: reconfirm_def confirm_def pressed_def digit_keys_def Let_def compare_pin_def
      verify_toy_def on_off_branch_def reset_entry_def)

theorem do_cooldown_waits_all_ticks_witness:
  "fst (do_cooldown reconfirm
          (keypad_run (map Press [''1'', ''2'', ''3'', ''4'', ''ok'']) panel_example)) = False \<and>
   snd (snd (do_cooldown reconfirm
          (keypad_run (map Press [''1'', ''2'', ''3'', ''4'', ''ok'']) panel_example))) =
     snd (keypad_run (map Press [''1'', ''2'', ''3'', ''4'', ''ok'']) panel_example) @
     replicate 9 (Sleep 1)"
proof -
  let ?w = "keypad_run (map Press [''1'', ''2'', ''3'', ''4'', ''ok'']) panel_example"
  have "stop_cooldown (reconfirm 1 ((fst (cooldown_begin ?w))\<lparr>progress := Dots 1\<rparr>))"
    unfolding panel_example_def typed_1234
    by (rule reconfirm_aborts) (simp_all add: cooldown_begin_def PinGuiApp_init_def)
  then have 1: "stop_cooldown (fst (cooldown_ticks reconfirm [1..<Suc 1] (cooldown_begin ?w)))"
    by (simp add: sleep_def Let_def)
  have 2: "\<forall>i s. 1 < i \<longrightarrow> stop_cooldown s \<longrightarrow> stop_cooldown (reconfirm i s)"
    by (simp add: reconfirm_def)
  have 3: "(1::nat) \<le> 1" "(1::nat) \<le> 9" by simp_all
  from do_cooldown_waits_all_ticks [of reconfirm ?w 1] 1 2 3
  show ?thesis by blast
qed

subsection \<open>The confirm handling\<close>

lemma on_off_branch_clears:
  "fst (on_off_branch env w) = Returned () \<Longrightarrow>
   pin_entry (fst (snd (on_off_branch env w))) = '''' \<and>
   display (fst (snd (on_off_branch env w))) = Stars0"
  by (auto simp: on_off_branch_def reset_entry_def Let_def
      split: prod.splits outcome.splits if_splits)

lemma compare_pin_clears:
  "fst (compare_pin verify env w) = Returned () \<Longrightarrow>
   pin_entry (fst (snd (compare_pin verify env w))) = '''' \<and>
   display (fst (snd (compare_pin verify env w))) = Stars0"
  by (auto simp: compare_pin_def sos_branch_def wrong_branch_def reset_entry_def Let_def
      dest: on_off_branch_clears split: vres.splits bool.splits)

lemma compare_pin_raises:
  "verify_raises verify (fst w) \<Longrightarrow> compare_pin verify env w = (Raised ValueError, w)"
  by (auto simp: compare_pin_def verify_raises_def)

lemma cooldown_ticks_up:
  assumes "\<forall>n s. up (redis s) \<longrightarrow> up (redis (env n s))" and "up (redis (fst w))"
  shows "up (redis (fst (cooldown_ticks env is w)))"
  using assms(2)
proof (induction "is" arbitrary: w)
  case Nil
  then show ?case by simp
next
  case (Cons i "is")
  have "up (redis (env i ((fst w)\<lparr>progress := Dots i\<rparr>)))"
    using assms(1) Cons.prems by simp
  then show ?case
    by (auto simp: Let_def sleep_def intro!: Cons.IH)
qed

lemma do_cooldown_up:
  assumes "\<forall>n s. up (redis s) \<longrightarrow> up (redis (env n s))" and "up (redis (fst w))"
  shows "up (redis (fst (snd (do_cooldown env w))))"
proof -
  have "up (redis (fst (cooldown_ticks env [1..<10] (cooldown_begin w))))"
    by (rule cooldown_ticks_up [OF assms(1)]) (simp add: cooldown_begin_def assms(2))
  then show ?thesis by (simp add: do_cooldown_def Let_def)
qed

lemma stop_redis_script_returns:
  "up (redis (fst w)) \<Longrightarrow> fst (stop_redis_script w) = Returned ()"
  by (simp add: stop_redis_script_def Let_def change_status_def set_trigger_status_def)

lemma start_redis_script_returns:
  "up (redis (fst w)) \<Longrightarrow> fst (start_redis_script k w) = Returned ()"
  by (simp add: start_redis_script_def Let_def change_status_def set_trigger_status_def
      flusher_def flushall_def logger_def toggle_full_screen_def)

lemma on_off_branch_returns:
  assumes "\<forall>n s. up (redis s) \<longrightarrow> up (redis (env n s))" and "up (redis (fst w))"
  shows "fst (on_off_branch env w) = Returned ()"
proof -
  have 1: "fst (stop_redis_script w) = Returned ()"
    by (rule stop_redis_script_returns [OF assms(2)])
  have 2: "fst (start_redis_script ''alarm''
             ((fst (snd (do_cooldown env w)))\<lparr>cooldown := fst (do_cooldown env w)\<rparr>,
              snd (snd (do_cooldown env w)))) = Returned ()"
    by (rule start_redis_script_returns) (simp add: do_cooldown_up [OF assms])
  show ?thesis
    using 1 2
    by (auto simp: on_off_branch_def reset_entry_def Let_def
        split: prod.splits outcome.splits)
qed

lemma compare_pin_returns:
  assumes "\<not> verify_raises verify (fst w)"
    and "\<forall>n s. up (redis s) \<longrightarrow> up (redis (env n s))" and "up (redis (fst w))"
  shows "fst (compare_pin verify env w) = Returned ()"
  using assms(1) on_off_branch_returns [OF assms(2,3)]
  by (auto simp: compare_pin_def sos_branch_def wrong_branch_def reset_entry_def Let_def
      verify_raises_def split: vres.splits bool.splits)

text \<open>
  C2, as the code has it. Whenever \<^verbatim>\<open>compare_pin\<close> runs to its end, whatever the outcome of
  the comparison (arm, disarm, abort, SOS, resize or no match), the buffer is empty and the
  indicator shows no stars when it returns; and it does run to its end when no verification
  raises and the store answers throughout. When a verification raises, the exception leaves
  \<^verbatim>\<open>compare_pin\<close> at once: nothing is armed, disarmed, sent or resized, no failure indication
  is shown, and the buffer and the indicator keep the values they had.
\<close>

theorem compare_pin_clears_when_it_ends:
  "(fst (compare_pin verify env w) = Returned () \<longrightarrow>
      pin_entry (fst (snd (compare_pin verify env w))) = '''' \<and>
      display (fst (snd (compare_pin verify env w))) = Stars0) \<and>
   (\<not> verify_raises verify (fst w) \<and>
    (\<forall>n s. up (redis s) \<longrightarrow> up (redis (env n s))) \<and> up (redis (fst w)) \<longrightarrow>
      fst (compare_pin verify env w) = Returned ()) \<and>
   (verify_raises verify (fst w) \<longrightarrow> compare_pin verify env w = (Raised ValueError, w))"
  using compare_pin_clears [of verify env w] compare_pin_returns [of verify w env]
    compare_pin_raises [of verify w env]
  by blast

theorem compare_pin_clears_when_it_ends_witness:
  "fst (confirm [''1'', ''2'', ''3'', ''5''] no_interference panel_example) = Returned () \<and>
   pin_entry (fst (snd (confirm [''1'', ''2'', ''3'', ''5''] no_interference panel_example)))
     = '''' \<and>
   display (fst (snd (confirm [''1'', ''2'', ''3'', ''5''] no_interference panel_example)))
     = Stars0 \<and>
   confirm [''1'', ''2'', ''3'', ''4''] no_interference panel_bad_hash =
     (Raised ValueError,
      keypad_run (map Press [''1'', ''2'', ''3'', ''4'', ''ok'']) panel_bad_hash)"
proof -
  let ?w = "keypad_run (map Press [''1'', ''2'', ''3'', ''5'', ''ok'']) panel_example"
  let ?b = "keypad_run (map Press [''1'', ''2'', ''3'', ''4'', ''ok'']) panel_bad_hash"
  have w: "pin_entry (fst ?w) = ''1235''" "on_off (fst ?w) = ''$2b$1234''"
    "silent (fst ?w) = ''$2b$9999''" "resize (fst ?w) = ''$2b$0000''" "up (redis (fst ?w))"
    unfolding panel_example_def typed_1235
    by (simp_all add: PinGuiApp_init_def store_empty_def)
  have b: "pin_entry (fst ?b) = ''1234''" "on_off (fst ?b) = ''1234''"
    unfolding panel_bad_hash_def typed_1234
    by (simp_all add: PinGuiApp_init_def)
  have 1: "\<not> verify_raises verify_toy (fst ?w)"
    unfolding verify_raises_def w by (simp add: verify_toy_def)
  have 2: "verify_raises verify_toy (fst ?b)"
    unfolding verify_raises_def b by (simp add: verify_toy_def)
  have 3: "\<forall>n s. up (redis s) \<longrightarrow> up (redis (no_interference n s))"
    by (simp add: no_interference_def)
  show ?thesis
    using compare_pin_clears_when_it_ends [of verify_toy no_interference ?w]
      compare_pin_clears_when_it_ends [of verify_toy no_interference ?b] 1 2 3 w(5)
    unfolding confirm_def append.simps by blast
qed

text \<open>
  C2 as the specification states it fails: with a text that is not a hash in the settings,
  the verification of the PIN 1234 raises, and the confirm handling ends with the buffer
  still holding 1234 and the indicator still showing four stars, which is not what it does
  on a PIN that matches nothing.
\<close>

theorem verify_error_counterexample:
  "fst (confirm [''1'', ''2'', ''3'', ''4''] no_interference panel_bad_hash) = Raised ValueError \<and>
   pin_entry (fst (snd (confirm [''1'', ''2'', ''3'', ''4''] no_interference panel_bad_hash)))
     = ''1234'' \<and>
   display (fst (snd (confirm [''1'', ''2'', ''3'', ''4''] no_interference panel_bad_hash)))
     = Stars4 \<and>
   confirm [''1'', ''2'', ''3'', ''4''] no_interference panel_bad_hash \<noteq>
     wrong_branch no_interference
       (keypad_run (map Press [''1'', ''2'', ''3'', ''4'', ''ok'']) panel_bad_hash)"
  unfolding confirm_def panel_bad_hash_def append.simps typed_1234
  by (simp add: compare_pin_def verify_toy_def PinGuiApp_init_def wrong_branch_def
      reset_entry_def)

section \<open>Properties of the presence monitor\<close>

subsection \<open>The wait of the debounce gate\<close>

lemma detect_person_ignores_clock:
  "detect_person (d\<lparr>start_time := a, end_time := b\<rparr>) w = detect_person d w"
  by (simp add: detect_person_def Let_def)

lemma save_image_keeps_runtime:
  "runtime (fst (snd (save_image e w))) = runtime (fst w) \<and>
   timeout (fst (snd (save_image e w))) = timeout (fst w)"
  by (simp add: save_image_def wait_timeout_def Let_def logger_def set_trigger_dev_def
      set_frame_def get_trigger_status_def split: option.splits)

lemma wait_timeout_at_start:
  "runtime (fst w) = 0 \<Longrightarrow> 0 \<le> timeout (fst w) \<Longrightarrow>
   wait_timeout w = (fst w, snd w @ [Sleep (timeout (fst w))])"
  by (simp add: wait_timeout_def)

text \<open>
  C3 at a failing input. The quiet window is 5 seconds and the inference took 7 seconds
  (\<open>start_time\<close> 100, \<open>end_time\<close> 107), so no wait is due; the monitor sleeps the whole
  5 seconds before it publishes the frame of the person.
\<close>

theorem slow_inference_still_waits:
  "timeout (fst monitor_example) = 5 \<and>
   end_time slow_detection - start_time slow_detection = 7 \<and>
   snd (snd (detect_person slow_detection monitor_example)) =
     [Log INFO ''Service started: Detecting people...'', Enter ''detect_person'' '''',
      Log WARNING ''Person detected!'', Sleep 5,
      StoreSet ''trigger_dev'', StoreSet ''frame'', Log DEBUG ''Runtime: '',
      Log INFO ''Frame saved to redis.'']"
  by (simp add: monitor_example_def main_start_def slow_detection_def shot_def untouched_def
      store_armed_def store_empty_def detect_person_def save_image_def wait_timeout_def
      Let_def logger_def set_trigger_dev_def set_frame_def get_trigger_status_def)

subsection \<open>The second look at the armed status\<close>

text \<open>
  When the store answers after the wait and holds a status, \<^verbatim>\<open>save_image\<close> decides on that
  status, whatever the store held and whatever \<^verbatim>\<open>main\<close> had read before it: when it is 1,
  it sets \<^verbatim>\<open>trigger_dev\<close> to the device name and then \<^verbatim>\<open>frame\<close> to the timestamped image;
  when it is anything else, it writes nothing to the store and logs that a person was
  detected while the system was deactivated.
\<close>

lemma save_image_on_status:
  assumes "up (during_wait e (r_store (fst w)))"
    and "k_trigger_status (during_wait e (r_store (fst w))) = Some v"
  shows "(v = 1 \<longrightarrow>
            save_image e w =
              (Returned (),
               ((fst w)\<lparr>r_store := (during_wait e (r_store (fst w)))
                    \<lparr>k_trigger_dev := Some (dev (fst w)),
                     k_frame := Some (curdate e, im_b64 e)\<rparr>\<rparr>,
                snd (wait_timeout w) @
                  [StoreSet ''trigger_dev'', StoreSet ''frame'', Log DEBUG ''Runtime: '',
                   Log INFO ''Frame saved to redis.'']))) \<and>
         (v \<noteq> 1 \<longrightarrow>
            save_image e w =
              (Returned (),
               ((fst w)\<lparr>r_store := during_wait e (r_store (fst w))\<rparr>,
                snd (wait_timeout w) @
                  [Log INFO ''Person was detected, but system was deactivated''])))"
  using assms
  by (simp add: save_image_def wait_timeout_def Let_def logger_def set_trigger_dev_def
      set_frame_def get_trigger_status_def)

lemma save_image_examples:
  "save_image shot_disarmed monitor_example =
     (Returned (),
      ((fst monitor_example)\<lparr>r_store := store_armed\<lparr>k_trigger_status := Some 0\<rparr>\<rparr>,
       snd monitor_example @
         [Sleep 5, Log INFO ''Person was detected, but system was deactivated''])) \<and>
   save_image shot monitor_example =
     (Returned (),
      ((fst monitor_example)\<lparr>r_store := store_armed
           \<lparr>k_trigger_dev := Some ''door'',
            k_frame := Some (''2021_05_04_12_00_00'', ''/9j/4AAQ'')\<rparr>\<rparr>,
       snd monitor_example @
         [Sleep 5, StoreSet ''trigger_dev'', StoreSet ''frame'', Log DEBUG ''Runtime: '',
          Log INFO ''Frame saved to redis.'']))"
proof -
  have w: "wait_timeout monitor_example = (fst monitor_example, snd monitor_example @ [Sleep 5])"
    by (simp add: wait_timeout_at_start monitor_example_def main_start_def)
  have s: "r_store (fst monitor_example) = store_armed" "dev (fst monitor_example) = ''door''"
    by (simp_all add: monitor_example_def main_start_def)
  have a: "up store_armed" "k_trigger_status store_armed = Some 1"
    by (simp_all add: store_armed_def store_empty_def)
  have 1: "up (during_wait shot_disarmed (r_store (fst monitor_example)))"
    "k_trigger_status (during_wait shot_disarmed (r_store (fst monitor_example))) = Some 0"
    "during_wait shot_disarmed (r_store (fst monitor_example)) =
       store_armed\<lparr>k_trigger_status := Some 0\<rparr>"
    by (simp_all add: s a shot_disarmed_def shot_def disarmed_meanwhile_def)
  have 2: "up (during_wait shot (r_store (fst monitor_example)))"
    "k_trigger_status (during_wait shot (r_store (fst monitor_example))) = Some 1"
    "during_wait shot (r_store (fst monitor_example)) = store_armed"
    "curdate shot = ''2021_05_04_12_00_00''" "im_b64 shot = ''/9j/4AAQ''"
    by (simp_all add: s a shot_def untouched_def)
  from save_image_on_status [OF 1(1,2)] save_image_on_status [OF 2(1,2)]
  show ?thesis
    by (simp add: w s shot_disarmed_def shot_def disarmed_meanwhile_def untouched_def)
qed

text \<open>
  When the store answers after the wait and holds no status, the read in \<^verbatim>\<open>save_image\<close>
  raises: \<^verbatim>\<open>r.get\<close> gives \<^verbatim>\<open>None\<close>, which has no \<^verbatim>\<open>decode\<close>. Nothing is written and
  nothing is logged.
\<close>

lemma save_image_status_absent:
  assumes "up (during_wait e (r_store (fst w)))"
    and "k_trigger_status (during_wait e (r_store (fst w))) = None"
  shows "save_image e w =
           (Raised AttributeError,
            ((fst w)\<lparr>r_store := during_wait e (r_store (fst w))\<rparr>, snd (wait_timeout w)))"
  using assms
  by (simp add: save_image_def wait_timeout_def Let_def get_trigger_status_def)

text \<open>
  C4 at a failing input. The system is armed when the person is detected, and the store is
  flushed during the wait, as the control panel does on arming before it writes the status
  again. The status that the store holds after the wait is no longer 1, but the pending
  publication does not end with the detected-but-deactivated entry in the log: the read of
  the status raises \<^verbatim>\<open>AttributeError\<close>, which leaves \<^verbatim>\<open>save_image\<close> after the wait with
  nothing written and nothing logged. \<^verbatim>\<open>main\<close> makes the same read only after \<^verbatim>\<open>r.exists\<close>
  has found the key.
\<close>

theorem flush_during_wait_raises:
  "k_trigger_status (r_store (fst monitor_example)) = Some 1 \<and>
   up (during_wait shot_flushed (r_store (fst monitor_example))) \<and>
   k_trigger_status (during_wait shot_flushed (r_store (fst monitor_example))) = None \<and>
   save_image shot_flushed monitor_example =
     (Raised AttributeError,
      ((fst monitor_example)\<lparr>r_store := store_empty\<rparr>,
       [Log INFO ''Service started: Detecting people...'', Sleep 5]))"
  by (simp add: monitor_example_def main_start_def shot_flushed_def shot_def flushed_def
      store_armed_def store_empty_def save_image_def wait_timeout_def Let_def
      get_trigger_status_def)

subsection \<open>Polls that find no status\<close>

lemma save_image_keeps_status:
  "trigger_status (fst (snd (save_image e w))) = trigger_status (fst w)"
  by (simp add: save_image_def wait_timeout_def Let_def logger_def set_trigger_dev_def
      set_frame_def get_trigger_status_def split: option.splits)

lemma save_persons_keeps_status:
  "trigger_status (fst (snd (save_persons ls w))) = trigger_status (fst w)"
proof (induction ls arbitrary: w)
  case Nil
  then show ?case by simp
next
  case (Cons l ls)
  have "trigger_status (fst (snd (save_image (snd l) (logger WARNING ''Person detected!'' w))))
          = trigger_status (fst w)"
    by (simp add: save_image_keeps_status logger_def)
  then show ?case
    by (auto simp: Cons.IH split: prod.splits outcome.splits)
qed

lemma detect_person_keeps_status:
  "trigger_status (fst (snd (detect_person d w))) = trigger_status (fst w)"
  by (simp add: detect_person_def Let_def save_persons_keeps_status)

lemma main_iteration_store_down:
  "\<not> up (before e (r_store (fst w))) \<Longrightarrow>
   main_iteration e w =
     (Raised ConnectionError, ((fst w)\<lparr>r_store := before e (r_store (fst w))\<rparr>, snd w))"
  by (simp add: main_iteration_def Let_def exists_trigger_status_def)

lemma main_iteration_key_absent:
  assumes "up (before e (r_store (fst w)))"
    and "k_trigger_status (before e (r_store (fst w))) = None"
  shows "main_iteration e w =
           (if trigger_status (fst w) = 1 then
              if is_last_frame (fst w) \<ge> 5
              then detect_person (det e)
                     ((fst w)\<lparr>r_store := before e (r_store (fst w)), is_last_frame := 0\<rparr>, snd w)
              else (Returned (),
                    ((fst w)\<lparr>r_store := before e (r_store (fst w)),
                             is_last_frame := is_last_frame (fst w) + 1\<rparr>, snd w))
            else (Returned (), ((fst w)\<lparr>r_store := before e (r_store (fst w))\<rparr>, snd w)))"
  using assms
  by (simp add: main_iteration_def Let_def exists_trigger_status_def)

text \<open>
  C8, as the code has it. A poll at which the store does not answer raises a
  \<^verbatim>\<open>ConnectionError\<close> that \<^verbatim>\<open>main\<close> does not catch: the loop ends there, whatever the later
  polls would have found. A poll at which the store answers but holds no \<^verbatim>\<open>trigger_status\<close>
  does not end the loop at the read: the monitor keeps the status it read last, does nothing
  when that status is not 1, and goes on sampling as an armed monitor when it is 1.
\<close>

theorem main_on_failing_read:
  "(\<not> up (before e (r_store (fst w))) \<longrightarrow>
      main_loop (e # es) w =
        (Raised ConnectionError, ((fst w)\<lparr>r_store := before e (r_store (fst w))\<rparr>, snd w))) \<and>
   (up (before e (r_store (fst w))) \<and> k_trigger_status (before e (r_store (fst w))) = None \<longrightarrow>
      trigger_status (fst (snd (main_iteration e w))) = trigger_status (fst w) \<and>
      (trigger_status (fst w) \<noteq> 1 \<longrightarrow>
         main_iteration e w =
           (Returned (), ((fst w)\<lparr>r_store := before e (r_store (fst w))\<rparr>, snd w))) \<and>
      (trigger_status (fst w) = 1 \<and> is_last_frame (fst w) \<ge> 5 \<longrightarrow>
         main_iteration e w =
           detect_person (det e)
             ((fst w)\<lparr>r_store := before e (r_store (fst w)), is_last_frame := 0\<rparr>, snd w)))"
proof (intro conjI impI)
  assume "\<not> up (before e (r_store (fst w)))"
  then show "main_loop (e # es) w =
        (Raised ConnectionError, ((fst w)\<lparr>r_store := before e (r_store (fst w))\<rparr>, snd w))"
    by (simp add: main_iteration_store_down)
next
  assume a: "up (before e (r_store (fst w))) \<and>
    k_trigger_status (before e (r_store (fst w))) = None"
  then show "trigger_status (fst (snd (main_iteration e w))) = trigger_status (fst w)"
    by (simp add: main_iteration_key_absent detect_person_keeps_status)
  {
    assume "trigger_status (fst w) \<noteq> 1"
    with a show "main_iteration e w =
           (Returned (), ((fst w)\<lparr>r_store := before e (r_store (fst w))\<rparr>, snd w))"
      by (simp add: main_iteration_key_absent)
  }
  {
    assume "trigger_status (fst w) = 1 \<and> is_last_frame (fst w) \<ge> 5"
    with a show "main_iteration e w =
           detect_person (det e)
             ((fst w)\<lparr>r_store := before e (r_store (fst w)), is_last_frame := 0\<rparr>, snd w)"
      by (simp add: main_iteration_key_absent)
  }
qed

theorem main_on_failing_read_witness:
  "main_loop [poll_down, poll_back] monitor_example =
     (Raised ConnectionError,
      ((fst monitor_example)\<lparr>r_store := store_armed\<lparr>up := False\<rparr>\<rparr>, snd monitor_example)) \<and>
   main_iteration poll_flushed monitor_example =
     (Returned (),
      ((fst monitor_example)\<lparr>r_store := store_empty\<rparr>, snd monitor_example))"
proof -
  have s: "r_store (fst monitor_example) = store_armed"
    "trigger_status (fst monitor_example) = 0"
    by (simp_all add: monitor_example_def main_start_def)
  have 1: "\<not> up (before poll_down (r_store (fst monitor_example)))"
    "before poll_down (r_store (fst monitor_example)) = store_armed\<lparr>up := False\<rparr>"
    by (simp_all add: s poll_down_def went_down_def)
  have 2: "up (before poll_flushed (r_store (fst monitor_example)))"
    "k_trigger_status (before poll_flushed (r_store (fst monitor_example))) = None"
    "before poll_flushed (r_store (fst monitor_example)) = store_empty"
    by (simp_all add: s poll_flushed_def flushed_def store_armed_def store_empty_def)
  from main_on_failing_read [of poll_down monitor_example "[poll_back]"]
    main_on_failing_read [of poll_flushed monitor_example] 1 2 s(2)
  show ?thesis by simp
qed

text \<open>
  C8 as the specification states it fails: the store does not answer at one poll and
  answers again at the next, and the loop has ended at the first of the two.
\<close>

theorem outage_ends_loop_counterexample:
  "fst (main_loop [poll_down, poll_back] monitor_example) = Raised ConnectionError"
  by (simp add: main_iteration_store_down monitor_example_def main_start_def poll_down_def
      went_down_def)

text \<open>
  An armed monitor whose store is flushed keeps sampling: the sixth poll finds no status
  and runs the detector.
\<close>

lemma flushed_store_keeps_last_status:
  "snd (snd (main_loop [poll, poll, poll, poll, poll, poll_flushed] monitor_example)) =
     [Log INFO ''Service started: Detecting people...'', Enter ''detect_person'' '''']"
  by (simp add: monitor_example_def main_start_def poll_def poll_flushed_def untouched_def
      flushed_def nothing_seen_def store_armed_def store_empty_def main_iteration_def Let_def
      exists_trigger_status_def get_trigger_status_def detect_person_def)

section \<open>Properties of the remote alarm client and the dispatch worker\<close>

subsection \<open>What a call of the client leaves in the trace and in the store\<close>

lemma entered_append: "entered f (xs @ ys) = entered f xs @ entered f ys"
  by (induction f xs rule: entered.induct) simp_all

lemma logged_append: "logged l (xs @ ys) = logged l xs @ logged l ys"
  by (induction l xs rule: logged.induct) simp_all

lemma get_session_id_frame:
  "fst (snd (get_session_id rp w)) = fst w \<and>
   entered f (snd (snd (get_session_id rp w))) = entered f (snd w)"
  by (simp add: get_session_id_def Let_def logger_def entered_append
      split: reply.splits body.splits option.splits user.splits)

lemma save_frame_frame:
  "fst (snd (save_frame ok w)) = fst w \<and>
   entered ''activate_alarm'' (snd (snd (save_frame ok w))) = entered ''activate_alarm'' (snd w) \<and>
   entered ''check_alarm_queue'' (snd (snd (save_frame ok w))) =
     entered ''check_alarm_queue'' (snd w)"
  by (simp add: save_frame_def Let_def logger_def entered_append get_frame_def
      split: option.splits)

lemma send_event_frame:
  "fst (snd (send_event e i w)) = fst w \<and>
   entered ''activate_alarm'' (snd (snd (send_event e i w))) = entered ''activate_alarm'' (snd w) \<and>
   entered ''check_alarm_queue'' (snd (snd (send_event e i w))) =
     entered ''check_alarm_queue'' (snd w)"
  by (simp add: send_event_def Let_def logger_def entered_append save_frame_frame
      split: reply.splits)

lemma get_alarm_type_frame:
  "fst (snd (get_alarm_type a w)) = fst w \<and>
   entered f (snd (snd (get_alarm_type a w))) = entered f (snd w)"
  by (simp add: get_alarm_type_def logger_def entered_append split: option.splits)

lemma activate_alarm_frame:
  "fst (snd (activate_alarm e a w)) = fst w \<and>
   entered ''activate_alarm'' (snd (snd (activate_alarm e a w))) =
     entered ''activate_alarm'' (snd w) @ [str_of a] \<and>
   entered ''check_alarm_queue'' (snd (snd (activate_alarm e a w))) =
     entered ''check_alarm_queue'' (snd w)"
proof -
  let ?w0 = "logger DEBUG ''Preparing alarm request''
               (fst w, snd w @ [Enter ''activate_alarm'' (str_of a)])"
  let ?w2 = "snd (get_alarm_type a (snd (get_alarm_type a ?w0)))"
  have w2: "fst ?w2 = fst w"
    "entered ''activate_alarm'' (snd ?w2) = entered ''activate_alarm'' (snd w) @ [str_of a]"
    "entered ''check_alarm_queue'' (snd ?w2) = entered ''check_alarm_queue'' (snd w)"
    by (simp_all add: get_alarm_type_frame logger_def entered_append)
  let ?w3 = "snd (get_session_id (login e) ?w2)"
  have w3: "fst ?w3 = fst w"
    "entered ''activate_alarm'' (snd ?w3) = entered ''activate_alarm'' (snd w) @ [str_of a]"
    "entered ''check_alarm_queue'' (snd ?w3) = entered ''check_alarm_queue'' (snd w)"
    by (simp_all add: get_session_id_frame w2)
  show ?thesis
    using w2 w3
    by (auto simp: activate_alarm_def Let_def logger_def entered_append send_event_frame
        split: prod.splits option.splits outcome.splits)
qed

lemma login_session_reply:
  assumes "login_session rp"
  obtains sid uid where "rp = Response 200 (Fields (Some sid) (UserId uid))"
  using assms by (cases rp rule: login_session.cases) simp_all

lemma activate_alarm_returns:
  assumes "\<not> call_raises e" and "up (insta_r (fst w))"
  shows "fst (activate_alarm e (Some t) w) = Returned ()"
proof -
  have 1: "\<exists>r. fst (get_session_id (login e) v) = Returned r" for v
    using assms(1)
    by (cases "login e" rule: login_raises.cases)
      (simp_all add: call_raises_def get_session_id_def Let_def
        split: option.splits user.splits)
  have 2: "fst (send_event e i v) = Returned ()"
    if "fst (get_session_id (login e) u) = Returned (Some ss)" "up (insta_r (fst v))" for i u v ss
  proof -
    from that(1) have "login_session (login e)"
      by (auto simp: get_session_id_def Let_def
          split: reply.splits body.splits option.splits user.splits if_splits)
    with assms(1) have "episode e \<noteq> OtherException" by (simp add: call_raises_def)
    with that(2) show ?thesis
      by (simp add: send_event_def Let_def save_frame_def get_frame_def logger_def
          split: reply.splits option.splits)
  qed
  let ?w2 = "snd (get_alarm_type (Some t) (snd (get_alarm_type (Some t)
      (logger DEBUG ''Preparing alarm request''
         (fst w, snd w @ [Enter ''activate_alarm'' (str_of (Some t))])))))"
  have 3: "up (insta_r (fst (snd (get_session_id (login e) ?w2))))"
    by (simp add: get_session_id_frame get_alarm_type_frame logger_def assms(2))
  show ?thesis
    using 1 [of ?w2] 2 [of ?w2 _ "snd (get_session_id (login e) ?w2)"] 3
    by (auto simp: activate_alarm_def Let_def split: prod.splits option.splits outcome.splits)
qed

lemma check_alarm_queue_store:
  "insta_r (fst (snd (check_alarm_queue e status w))) = arrive e (insta_r (fst w))"
  by (simp add: check_alarm_queue_def Let_def get_trigger_dev_def activate_alarm_frame
      logger_def)

lemma check_alarm_queue_entered:
  "entered ''check_alarm_queue'' (snd (snd (check_alarm_queue e status w))) =
     entered ''check_alarm_queue'' (snd w) @ [status]"
  by (simp add: check_alarm_queue_def Let_def get_trigger_dev_def activate_alarm_frame
      logger_def entered_append)

lemma check_alarm_queue_down:
  "\<not> up (arrive e (insta_r (fst w))) \<Longrightarrow>
   fst (check_alarm_queue e status w) = Raised ConnectionError"
  by (simp add: check_alarm_queue_def Let_def get_trigger_dev_def)

lemma check_alarm_queue_sos:
  "up (arrive e (insta_r (fst w))) \<Longrightarrow>
   entered ''activate_alarm'' (snd (snd (check_alarm_queue e ''sos'' w))) =
     entered ''activate_alarm'' (snd w) @ [''sos'']"
  by (simp add: check_alarm_queue_def Let_def get_trigger_dev_def activate_alarm_frame
      logger_def entered_append str_of_def)

lemma check_alarm_queue_alarm:
  "up (arrive e (insta_r (fst w))) \<Longrightarrow> k_trigger_dev (arrive e (insta_r (fst w))) = Some d \<Longrightarrow>
   entered ''activate_alarm'' (snd (snd (check_alarm_queue e ''alarm'' w))) =
     entered ''activate_alarm'' (snd w) @ [''alarm'']"
  by (simp add: check_alarm_queue_def Let_def get_trigger_dev_def activate_alarm_frame
      logger_def entered_append str_of_def)

lemma check_alarm_queue_returns:
  assumes "up (arrive e (insta_r (fst w)))" and "\<not> call_raises e"
  shows "fst (check_alarm_queue e status w) = Returned ()"
  using assms
  by (simp add: check_alarm_queue_def Let_def get_trigger_dev_def activate_alarm_returns
      logger_def)

subsection \<open>An episode request answered with status 400\<close>

text \<open>
  C7. A submission for the standard alarm or the SOS alarm whose login gave a session and
  whose episode request is answered with status 400 returns normally; all it leaves in the
  trace is its two requests and three log entries of level \<^verbatim>\<open>DEBUG\<close>, the last of which is
  \<^verbatim>\<open>Alarm is still active\<close>: \<^verbatim>\<open>save_frame\<close> is not entered, no file is written and nothing is
  logged at level \<^verbatim>\<open>ERROR\<close>.
\<close>

theorem conflict_is_benign:
  assumes "t = ''alarm'' \<or> t = ''sos''" and "login_session (login e)"
    and "episode e = Response 400 b"
  shows "activate_alarm e (Some t) w =
           (Returned (),
            (fst w,
             snd w @
               [Enter ''activate_alarm'' t, Log DEBUG ''Preparing alarm request'',
                Post ''system/session?embedded=user'',
                Log DEBUG ''Now sending alarm request'',
                Post (''events/'' @
                      (if t = ''alarm'' then alarm_event_id (fst w) else sos_event_id (fst w)) @
                      ''/episodes''),
                Log DEBUG ''Alarm is still active''])) \<and>
         entered ''save_frame'' (snd (snd (activate_alarm e (Some t) w))) =
           entered ''save_frame'' (snd w) \<and>
         logged ERROR (snd (snd (activate_alarm e (Some t) w))) = logged ERROR (snd w)"
proof -
  from assms(2) obtain sid uid where l: "login e = Response 200 (Fields (Some sid) (UserId uid))"
    by (rule login_session_reply)
  have eq: "activate_alarm e (Some t) w =
           (Returned (),
            (fst w,
             snd w @
               [Enter ''activate_alarm'' t, Log DEBUG ''Preparing alarm request'',
                Post ''system/session?embedded=user'',
                Log DEBUG ''Now sending alarm request'',
                Post (''events/'' @
                      (if t = ''alarm'' then alarm_event_id (fst w) else sos_event_id (fst w)) @
                      ''/episodes''),
                Log DEBUG ''Alarm is still active'']))"
    using assms(1,3) l
    by (auto simp: activate_alarm_def get_alarm_type_def get_session_id_def send_event_def
        Let_def logger_def str_of_def)
  show ?thesis
    unfolding eq by (simp add: entered_append logged_append)
qed

theorem conflict_is_benign_witness:
  "activate_alarm conflict (Some ''alarm'') (insta_example, []) =
     (Returned (),
      (insta_example,
       [Enter ''activate_alarm'' ''alarm'', Log DEBUG ''Preparing alarm request'',
        Post ''system/session?embedded=user'', Log DEBUG ''Now sending alarm request'',
        Post ''events/17/episodes'', Log DEBUG ''Alarm is still active''])) \<and>
   entered ''save_frame''
     (snd (snd (activate_alarm conflict (Some ''alarm'') (insta_example, [])))) = [] \<and>
   logged ERROR (snd (snd (activate_alarm conflict (Some ''alarm'') (insta_example, [])))) = []"
proof -
  have 1: "login_session (login conflict)"
    "episode conflict = Response 400 (Fields None NoUser)"
    by (simp_all add: conflict_def accepted_def)
  have 2: "alarm_event_id insta_example = ''17''" by (simp add: insta_example_def)
  from conflict_is_benign [OF _ 1, of "''alarm''" "(insta_example, [])"] 2
  show ?thesis by simp
qed

subsection \<open>One pass of the worker\<close>

lemma call_check_fields:
  "th_alarm_status (fst (snd (call_check e w))) = th_alarm_status (fst w) \<and>
   th_alarm_status_old (fst (snd (call_check e w))) = th_alarm_status_old (fst w) \<and>
   th_alarm_queue (fst (snd (call_check e w))) = th_alarm_queue (fst w)"
  by (simp add: call_check_def Let_def)

lemma call_check_store:
  "insta_r (redisToIs (fst (snd (call_check e w)))) = arrive e (insta_r (redisToIs (fst w)))"
  by (simp add: call_check_def Let_def check_alarm_queue_store)

lemma call_check_entered:
  "entered ''check_alarm_queue'' (snd (snd (call_check e w))) =
     entered ''check_alarm_queue'' (snd w) @ [th_alarm_status (fst w)]"
  by (simp add: call_check_def Let_def check_alarm_queue_entered)

lemma call_check_up:
  "fst (call_check e w) = Returned () \<Longrightarrow> up (arrive e (insta_r (redisToIs (fst w))))"
  using check_alarm_queue_down [of e "(redisToIs (fst w), snd w)" "th_alarm_status (fst w)"]
  by (auto simp: call_check_def Let_def)

lemma call_check_sos:
  assumes "fst (call_check e w) = Returned ()" and "th_alarm_status (fst w) = ''sos''"
  shows "entered ''activate_alarm'' (snd (snd (call_check e w))) =
           entered ''activate_alarm'' (snd w) @ [''sos'']"
  using call_check_up [OF assms(1)] assms(2)
  by (simp add: call_check_def Let_def check_alarm_queue_sos)

lemma call_check_alarm:
  assumes "fst (call_check e w) = Returned ()" and "th_alarm_status (fst w) = ''alarm''"
    and "k_trigger_dev (arrive e (insta_r (redisToIs (fst w)))) = Some d"
  shows "entered ''activate_alarm'' (snd (snd (call_check e w))) =
           entered ''activate_alarm'' (snd w) @ [''alarm'']"
  using call_check_up [OF assms(1)] assms(2,3)
  by (simp add: call_check_def Let_def check_alarm_queue_alarm)

lemma call_check_returns:
  "up (arrive e (insta_r (redisToIs (fst w)))) \<Longrightarrow> \<not> call_raises e \<Longrightarrow>
   fst (call_check e w) = Returned ()"
  by (simp add: call_check_def Let_def check_alarm_queue_returns)

text \<open>The fields with which the pass that takes \<^verbatim>\<open>sos\<close> from the queue makes its first call.\<close>

lemma tick_sos:
  assumes "th_alarm_queue (fst w) @ arrivals e = ''sos'' # rest"
  shows "tick e w =
           (case call_check (sos_call e)
                   ((fst w)\<lparr>th_alarm_queue := rest, th_alarm_status_old := th_alarm_status (fst w),
                            th_alarm_status := ''sos''\<rparr>, snd w) of
              (Raised err, w4) \<Rightarrow> (Raised err, w4)
            | (Returned u, w4) \<Rightarrow>
                call_check (last_call e)
                  ((fst w4)\<lparr>th_alarm_status := th_alarm_status_old (fst w4)\<rparr>, snd w4))"
  using assms by (simp add: tick_def Let_def)

lemma tick_idle:
  assumes "th_alarm_queue (fst w) @ arrivals e = []"
  shows "tick e w = call_check (last_call e) w"
proof -
  from assms have q: "th_alarm_queue (fst w) = []" by simp
  have "(fst w)\<lparr>th_alarm_queue := th_alarm_queue (fst w)\<rparr> = fst w" by simp
  then have "(fst w)\<lparr>th_alarm_queue := []\<rparr> = fst w" unfolding q .
  then have "((fst w)\<lparr>th_alarm_queue := []\<rparr>, snd w) = w" by simp
  with assms show ?thesis by (simp add: tick_def Let_def)
qed

subsection \<open>The requests of a submission\<close>

lemma posted_append: "posted (xs @ ys) = posted xs @ posted ys"
  by (induction xs rule: posted.induct) simp_all

lemma get_session_id_posted:
  "posted (snd (snd (get_session_id rp w))) = posted (snd w) @ [''system/session?embedded=user'']"
  by (simp add: get_session_id_def Let_def logger_def posted_append
      split: reply.splits body.splits option.splits user.splits)

lemma get_session_id_session:
  "(\<exists>ss. fst (get_session_id rp w) = Returned (Some ss)) = login_session rp"
  by (auto simp: get_session_id_def Let_def
      split: reply.splits body.splits option.splits user.splits)

lemma get_session_id_raises:
  "(\<exists>err. fst (get_session_id rp w) = Raised err) = login_raises rp"
  by (auto simp: get_session_id_def Let_def
      split: reply.splits body.splits option.splits user.splits)

lemma save_frame_posted: "posted (snd (snd (save_frame ok w))) = posted (snd w)"
  by (simp add: save_frame_def Let_def logger_def posted_append get_frame_def
      split: option.splits)

lemma send_event_posted:
  "posted (snd (snd (send_event e i w))) =
     posted (snd w) @ [''events/'' @ str_of i @ ''/episodes'']"
  by (simp add: send_event_def Let_def logger_def posted_append save_frame_posted
      split: reply.splits)

lemma send_event_raises:
  "episode e = OtherException \<Longrightarrow> fst (send_event e i w) = Raised AttributeError"
  by (simp add: send_event_def Let_def)

text \<open>
  The event id that \<^verbatim>\<open>get_alarm_type\<close> gives for the two alarm types, and what a submission
  for one of them does up to its login.
\<close>

lemma activate_alarm_known:
  assumes "t = ''alarm'' \<or> t = ''sos''"
  shows "activate_alarm e (Some t) w =
           (case get_session_id (login e)
                   (fst w,
                    snd w @ [Enter ''activate_alarm'' t, Log DEBUG ''Preparing alarm request'']) of
              (Raised err, w3) \<Rightarrow> (Raised err, w3)
            | (Returned None, w3) \<Rightarrow>
                (Returned (),
                 logger ERROR ''Canceling the alarm triggering''
                   (logger ERROR ''Could not get Session Id from IS API'' w3))
            | (Returned (Some session), w3) \<Rightarrow>
                send_event e
                  (Some (if t = ''alarm'' then alarm_event_id (fst w) else sos_event_id (fst w)))
                  w3)"
  using assms
  by (auto simp: activate_alarm_def get_alarm_type_def Let_def logger_def str_of_def)

lemma activate_alarm_posted:
  assumes "t = ''alarm'' \<or> t = ''sos''"
  shows "posted (snd (snd (activate_alarm e (Some t) w))) =
           posted (snd w) @ ''system/session?embedded=user'' #
             (if login_session (login e)
              then [''events/'' @
                    (if t = ''alarm'' then alarm_event_id (fst w) else sos_event_id (fst w)) @
                    ''/episodes'']
              else [])"
proof -
  let ?w2 = "(fst w, snd w @ [Enter ''activate_alarm'' t, Log DEBUG ''Preparing alarm request''])"
  obtain r w3 where g: "get_session_id (login e) ?w2 = (r, w3)"
    by (cases "get_session_id (login e) ?w2")
  have p3: "posted (snd w3) = posted (snd w) @ [''system/session?embedded=user'']"
    using get_session_id_posted [of "login e" ?w2] g by (simp add: posted_append)
  have s: "(\<exists>ss. r = Returned (Some ss)) = login_session (login e)"
    using get_session_id_session [of "login e" ?w2] g by simp
  show ?thesis
  proof (cases r)
    case (Raised err)
    with s have "\<not> login_session (login e)" by auto
    with Raised g p3 show ?thesis
      by (simp add: activate_alarm_known [OF assms])
  next
    case (Returned x)
    show ?thesis
    proof (cases x)
      case None
      with Returned s have "\<not> login_session (login e)" by auto
      with None Returned g p3 show ?thesis
        by (simp add: activate_alarm_known [OF assms] logger_def posted_append)
    next
      case (Some ss)
      with Returned s have "login_session (login e)" by auto
      with Some Returned g p3 show ?thesis
        by (simp add: activate_alarm_known [OF assms] send_event_posted str_of_def)
    qed
  qed
qed

lemma activate_alarm_raises:
  assumes "call_raises e" and "t = ''alarm'' \<or> t = ''sos''"
  shows "\<exists>err. fst (activate_alarm e (Some t) w) = Raised err"
proof -
  let ?w2 = "(fst w, snd w @ [Enter ''activate_alarm'' t, Log DEBUG ''Preparing alarm request''])"
  obtain r w3 where g: "get_session_id (login e) ?w2 = (r, w3)"
    by (cases "get_session_id (login e) ?w2")
  from assms(1) consider "login_raises (login e)"
    | "login_session (login e)" "episode e = OtherException"
    by (auto simp: call_raises_def)
  then show ?thesis
  proof cases
    case 1
    with get_session_id_raises [of "login e" ?w2] g obtain err where "r = Raised err" by auto
    with g show ?thesis by (simp add: activate_alarm_known [OF assms(2)])
  next
    case 2
    with get_session_id_session [of "login e" ?w2] g obtain ss where "r = Returned (Some ss)"
      by auto
    with g 2(2) show ?thesis
      by (simp add: activate_alarm_known [OF assms(2)] send_event_raises)
  qed
qed

lemma check_alarm_queue_ids:
  "alarm_event_id (fst (snd (check_alarm_queue e status w))) = alarm_event_id (fst w) \<and>
   sos_event_id (fst (snd (check_alarm_queue e status w))) = sos_event_id (fst w)"
  by (simp add: check_alarm_queue_def Let_def get_trigger_dev_def activate_alarm_frame
      logger_def)

lemma check_alarm_queue_sos_raises:
  assumes "\<not> up (arrive e (insta_r (fst w))) \<or> call_raises e"
  shows "\<exists>err. fst (check_alarm_queue e ''sos'' w) = Raised err"
proof (cases "up (arrive e (insta_r (fst w)))")
  case False
  then show ?thesis by (simp add: check_alarm_queue_down)
next
  case True
  with assms have "call_raises e" by simp
  from activate_alarm_raises [OF this, of "''sos''"] True show ?thesis
    by (simp add: check_alarm_queue_def Let_def get_trigger_dev_def)
qed

lemma check_alarm_queue_sos_posted:
  assumes "up (arrive e (insta_r (fst w)))"
  shows "posted (snd (snd (check_alarm_queue e ''sos'' w))) =
           posted (snd w) @ ''system/session?embedded=user'' #
             (if login_session (login e)
              then [''events/'' @ sos_event_id (fst w) @ ''/episodes''] else [])"
  using assms
  by (simp add: check_alarm_queue_def Let_def get_trigger_dev_def activate_alarm_posted
      logger_def posted_append)

lemma check_alarm_queue_alarm_posted:
  assumes "up (arrive e (insta_r (fst w)))" and "k_trigger_dev (arrive e (insta_r (fst w))) \<noteq> None"
  shows "posted (snd (snd (check_alarm_queue e ''alarm'' w))) =
           posted (snd w) @ ''system/session?embedded=user'' #
             (if login_session (login e)
              then [''events/'' @ alarm_event_id (fst w) @ ''/episodes''] else [])"
  using assms
  by (simp add: check_alarm_queue_def Let_def get_trigger_dev_def activate_alarm_posted
      logger_def posted_append)

subsection \<open>The pass that takes an SOS from the queue\<close>

lemma call_check_ids:
  "alarm_event_id (redisToIs (fst (snd (call_check e w)))) = alarm_event_id (redisToIs (fst w)) \<and>
   sos_event_id (redisToIs (fst (snd (call_check e w)))) = sos_event_id (redisToIs (fst w))"
  by (simp add: call_check_def Let_def check_alarm_queue_ids)

lemma call_check_sos_raises:
  assumes "th_alarm_status (fst w) = ''sos''"
    and "\<not> up (arrive e (insta_r (redisToIs (fst w)))) \<or> call_raises e"
  shows "\<exists>err. fst (call_check e w) = Raised err"
  using check_alarm_queue_sos_raises [of e "(redisToIs (fst w), snd w)"] assms
  by (simp add: call_check_def Let_def)

lemma call_check_sos_posted:
  assumes "th_alarm_status (fst w) = ''sos''" and "up (arrive e (insta_r (redisToIs (fst w))))"
  shows "posted (snd (snd (call_check e w))) =
           posted (snd w) @ ''system/session?embedded=user'' #
             (if login_session (login e)
              then [''events/'' @ sos_event_id (redisToIs (fst w)) @ ''/episodes''] else [])"
  using check_alarm_queue_sos_posted [of e "(redisToIs (fst w), snd w)"] assms
  by (simp add: call_check_def Let_def)

lemma call_check_alarm_posted:
  assumes "th_alarm_status (fst w) = ''alarm''" and "up (arrive e (insta_r (redisToIs (fst w))))"
    and "k_trigger_dev (arrive e (insta_r (redisToIs (fst w)))) \<noteq> None"
  shows "posted (snd (snd (call_check e w))) =
           posted (snd w) @ ''system/session?embedded=user'' #
             (if login_session (login e)
              then [''events/'' @ alarm_event_id (redisToIs (fst w)) @ ''/episodes''] else [])"
  using check_alarm_queue_alarm_posted [of e "(redisToIs (fst w), snd w)"] assms
  by (simp add: call_check_def Let_def)

lemma call_check_sos_entered:
  assumes "th_alarm_status (fst w) = ''sos''" and "up (arrive e (insta_r (redisToIs (fst w))))"
  shows "entered ''activate_alarm'' (snd (snd (call_check e w))) =
           entered ''activate_alarm'' (snd w) @ [''sos'']"
  using assms by (simp add: call_check_def Let_def check_alarm_queue_sos)

lemma call_check_alarm_entered:
  assumes "th_alarm_status (fst w) = ''alarm''" and "up (arrive e (insta_r (redisToIs (fst w))))"
    and "k_trigger_dev (arrive e (insta_r (redisToIs (fst w)))) \<noteq> None"
  shows "entered ''activate_alarm'' (snd (snd (call_check e w))) =
           entered ''activate_alarm'' (snd w) @ [''alarm'']"
proof -
  from assms(3) obtain d where "k_trigger_dev (arrive e (insta_r (redisToIs (fst w)))) = Some d"
    by auto
  with assms(1,2) show ?thesis
    by (simp add: call_check_def Let_def check_alarm_queue_alarm)
qed

lemma call_check_entered_more:
  "\<exists>more. entered ''activate_alarm'' (snd (snd (call_check e w))) =
            entered ''activate_alarm'' (snd w) @ more"
  by (simp add: call_check_def Let_def check_alarm_queue_def get_trigger_dev_def
      activate_alarm_frame logger_def entered_append)

text \<open>
  The pass that takes \<^verbatim>\<open>sos\<close> from the queue, by the outcome of its first call: when that
  call returns, the pass goes on with the closing call, made with the command that stood
  before; when it raises, the pass ends there.
\<close>

lemma tick_sos_first:
  assumes q: "th_alarm_queue (fst w) @ arrivals e = ''sos'' # rest"
  defines "w3 \<equiv> ((fst w)\<lparr>th_alarm_queue := rest, th_alarm_status_old := th_alarm_status (fst w),
                          th_alarm_status := ''sos''\<rparr>, snd w)"
  defines "w4 \<equiv> snd (call_check (sos_call e) w3)"
  shows "fst (call_check (sos_call e) w3) = Returned () \<Longrightarrow>
           tick e w =
             call_check (last_call e)
               ((fst w4)\<lparr>th_alarm_status := th_alarm_status (fst w)\<rparr>, snd w4)"
    and "fst (call_check (sos_call e) w3) = Raised err \<Longrightarrow> tick e w = (Raised err, w4)"
proof -
  obtain res v where c: "call_check (sos_call e) w3 = (res, v)"
    by (cases "call_check (sos_call e) w3")
  then have v: "v = w4" by (simp add: w4_def)
  have old: "th_alarm_status_old (fst w4) = th_alarm_status (fst w)"
    by (simp add: w4_def w3_def call_check_fields)
  have ts: "tick e w =
      (case res of
         Raised err \<Rightarrow> (Raised err, v)
       | Returned u \<Rightarrow>
           call_check (last_call e)
             ((fst v)\<lparr>th_alarm_status := th_alarm_status_old (fst v)\<rparr>, snd v))"
    using tick_sos [OF q] c by (simp add: w3_def)
  show "fst (call_check (sos_call e) w3) = Returned () \<Longrightarrow>
           tick e w =
             call_check (last_call e)
               ((fst w4)\<lparr>th_alarm_status := th_alarm_status (fst w)\<rparr>, snd w4)"
    using c ts by (simp add: v old)
  show "fst (call_check (sos_call e) w3) = Raised err \<Longrightarrow> tick e w = (Raised err, w4)"
    using c ts by (simp add: v)
qed

text \<open>What the first call of that pass leaves, whatever its outcome.\<close>

lemma tick_sos_after_first:
  fixes w :: workerw and e :: tick_env and rest :: "string list"
  defines "w3 \<equiv> ((fst w)\<lparr>th_alarm_queue := rest, th_alarm_status_old := th_alarm_status (fst w),
                          th_alarm_status := ''sos''\<rparr>, snd w)"
  defines "w4 \<equiv> snd (call_check (sos_call e) w3)"
  shows "th_alarm_status_old (fst w4) = th_alarm_status (fst w)"
    and "th_alarm_status (fst w4) = ''sos''"
    and "th_alarm_queue (fst w4) = rest"
    and "entered ''check_alarm_queue'' (snd w4) = entered ''check_alarm_queue'' (snd w) @ [''sos'']"
    and "insta_r (redisToIs (fst w4)) = arrive (sos_call e) (insta_r (redisToIs (fst w)))"
    and "alarm_event_id (redisToIs (fst w4)) = alarm_event_id (redisToIs (fst w))"
  by (simp_all add: w4_def w3_def call_check_fields call_check_entered call_check_store
      call_check_ids)

lemma tick_sos_first_returns:
  assumes "up (arrive (sos_call e) (insta_r (redisToIs (fst w))))" and "\<not> call_raises (sos_call e)"
  shows "fst (call_check (sos_call e)
                ((fst w)\<lparr>th_alarm_queue := rest, th_alarm_status_old := th_alarm_status (fst w),
                         th_alarm_status := ''sos''\<rparr>, snd w)) = Returned ()"
  by (rule call_check_returns) (simp_all add: assms)

lemma tick_sos_first_raises:
  assumes "\<not> up (arrive (sos_call e) (insta_r (redisToIs (fst w)))) \<or> call_raises (sos_call e)"
  shows "\<exists>err. fst (call_check (sos_call e)
                ((fst w)\<lparr>th_alarm_queue := rest, th_alarm_status_old := th_alarm_status (fst w),
                         th_alarm_status := ''sos''\<rparr>, snd w)) = Raised err"
  by (rule call_check_sos_raises) (use assms in simp_all)

lemma call_check_posted_more:
  "\<exists>more. posted (snd (snd (call_check e w))) = posted (snd w) @ more"
  by (auto simp: call_check_def Let_def check_alarm_queue_def get_trigger_dev_def
      activate_alarm_posted logger_def posted_append)

text \<open>
  C6, as the code has it. In a pass of the worker that takes \<^verbatim>\<open>sos\<close> from the queue, the
  command that stood before is kept in \<open>th_alarm_status_old\<close> and \<^verbatim>\<open>check_alarm_queue\<close> is
  called with \<^verbatim>\<open>sos\<close>. When that call returns (the store answers and no reply makes the
  client raise), the SOS was handed to \<^verbatim>\<open>activate_alarm\<close>, which sent its login request and,
  after a login that gave a session, its episode request for the SOS event; and the command
  that stood before is current again: the closing call of the pass is made with it, the pass
  ends with it, and a next pass that finds the queue empty calls \<^verbatim>\<open>check_alarm_queue\<close> with
  it. When that call raises, the exception leaves \<^verbatim>\<open>run\<close>: the current command stays
  \<^verbatim>\<open>sos\<close>, and \<^verbatim>\<open>check_alarm_queue\<close> is not called again.
\<close>

theorem sos_restored_when_first_call_returns:
  assumes "th_alarm_queue (fst w) @ arrivals e = ''sos'' # rest"
  shows "(up (arrive (sos_call e) (insta_r (redisToIs (fst w)))) \<and> \<not> call_raises (sos_call e) \<longrightarrow>
            th_alarm_status_old (fst (snd (tick e w))) = th_alarm_status (fst w) \<and>
            th_alarm_status (fst (snd (tick e w))) = th_alarm_status (fst w) \<and>
            th_alarm_queue (fst (snd (tick e w))) = rest \<and>
            entered ''check_alarm_queue'' (snd (snd (tick e w))) =
              entered ''check_alarm_queue'' (snd w) @ [''sos'', th_alarm_status (fst w)] \<and>
            (\<exists>more. entered ''activate_alarm'' (snd (snd (tick e w))) =
                      entered ''activate_alarm'' (snd w) @ ''sos'' # more) \<and>
            (\<exists>more. posted (snd (snd (tick e w))) =
                      posted (snd w) @ ''system/session?embedded=user'' #
                        (if login_session (login (sos_call e))
                         then [''events/'' @ sos_event_id (redisToIs (fst w)) @ ''/episodes'']
                         else []) @ more) \<and>
            (rest = [] \<and> arrivals e' = [] \<and> fst (tick e w) = Returned () \<longrightarrow>
               entered ''check_alarm_queue'' (snd (snd (tick e' (snd (tick e w))))) =
                 entered ''check_alarm_queue'' (snd w) @
                   [''sos'', th_alarm_status (fst w), th_alarm_status (fst w)])) \<and>
         (\<not> up (arrive (sos_call e) (insta_r (redisToIs (fst w)))) \<or> call_raises (sos_call e) \<longrightarrow>
            (\<exists>err. fst (tick e w) = Raised err) \<and>
            th_alarm_status_old (fst (snd (tick e w))) = th_alarm_status (fst w) \<and>
            th_alarm_status (fst (snd (tick e w))) = ''sos'' \<and>
            entered ''check_alarm_queue'' (snd (snd (tick e w))) =
              entered ''check_alarm_queue'' (snd w) @ [''sos''])"
proof (intro conjI impI)
  let ?w3 = "((fst w)\<lparr>th_alarm_queue := rest, th_alarm_status_old := th_alarm_status (fst w),
                       th_alarm_status := ''sos''\<rparr>, snd w)"
  let ?w4 = "snd (call_check (sos_call e) ?w3)"
  let ?w5 = "((fst ?w4)\<lparr>th_alarm_status := th_alarm_status (fst w)\<rparr>, snd ?w4)"
  note a4 = tick_sos_after_first [where w = w and e = e and rest = rest]
  {
    assume ok: "up (arrive (sos_call e) (insta_r (redisToIs (fst w)))) \<and>
      \<not> call_raises (sos_call e)"
    then have first: "fst (call_check (sos_call e) ?w3) = Returned ()"
      by (simp add: tick_sos_first_returns)
    note t = tick_sos_first(1) [OF assms first]
    have e4: "entered ''activate_alarm'' (snd ?w4) = entered ''activate_alarm'' (snd w) @ [''sos'']"
      using call_check_sos_entered [of ?w3 "sos_call e"] ok by simp
    have p4: "posted (snd ?w4) =
        posted (snd w) @ ''system/session?embedded=user'' #
          (if login_session (login (sos_call e))
           then [''events/'' @ sos_event_id (redisToIs (fst w)) @ ''/episodes''] else [])"
      using call_check_sos_posted [of ?w3 "sos_call e"] ok by simp
    show old: "th_alarm_status_old (fst (snd (tick e w))) = th_alarm_status (fst w)"
      unfolding t by (simp add: call_check_fields a4)
    show cur: "th_alarm_status (fst (snd (tick e w))) = th_alarm_status (fst w)"
      unfolding t by (simp add: call_check_fields)
    show que: "th_alarm_queue (fst (snd (tick e w))) = rest"
      unfolding t by (simp add: call_check_fields a4)
    show cq: "entered ''check_alarm_queue'' (snd (snd (tick e w))) =
              entered ''check_alarm_queue'' (snd w) @ [''sos'', th_alarm_status (fst w)]"
      unfolding t by (simp add: call_check_entered a4)
    from call_check_entered_more [of "last_call e" ?w5]
    obtain more where "entered ''activate_alarm'' (snd (snd (call_check (last_call e) ?w5))) =
        entered ''activate_alarm'' (snd ?w5) @ more" ..
    then show "\<exists>more. entered ''activate_alarm'' (snd (snd (tick e w))) =
                   entered ''activate_alarm'' (snd w) @ ''sos'' # more"
      unfolding t by (simp add: e4)
    from call_check_posted_more [of "last_call e" ?w5]
    obtain more where "posted (snd (snd (call_check (last_call e) ?w5))) =
        posted (snd ?w5) @ more" ..
    then show "\<exists>more. posted (snd (snd (tick e w))) =
                      posted (snd w) @ ''system/session?embedded=user'' #
                        (if login_session (login (sos_call e))
                         then [''events/'' @ sos_event_id (redisToIs (fst w)) @ ''/episodes'']
                         else []) @ more"
      unfolding t by (simp add: p4)
    {
      assume n: "rest = [] \<and> arrivals e' = [] \<and> fst (tick e w) = Returned ()"
      with que have "th_alarm_queue (fst (snd (tick e w))) @ arrivals e' = []" by simp
      from tick_idle [OF this]
      show "entered ''check_alarm_queue'' (snd (snd (tick e' (snd (tick e w))))) =
               entered ''check_alarm_queue'' (snd w) @
                 [''sos'', th_alarm_status (fst w), th_alarm_status (fst w)]"
        by (simp add: call_check_entered cq cur)
    }
  }
  {
    assume bad: "\<not> up (arrive (sos_call e) (insta_r (redisToIs (fst w)))) \<or>
      call_raises (sos_call e)"
    from tick_sos_first_raises [OF this, where rest = rest]
    obtain err where first: "fst (call_check (sos_call e) ?w3) = Raised err" ..
    note t = tick_sos_first(2) [OF assms first]
    show "\<exists>err. fst (tick e w) = Raised err" unfolding t by simp
    show "th_alarm_status_old (fst (snd (tick e w))) = th_alarm_status (fst w)"
      unfolding t by (simp add: a4)
    show "th_alarm_status (fst (snd (tick e w))) = ''sos''"
      unfolding t by (simp add: a4)
    show "entered ''check_alarm_queue'' (snd (snd (tick e w))) =
              entered ''check_alarm_queue'' (snd w) @ [''sos'']"
      unfolding t by (simp add: a4)
  }
qed

text \<open>
  C10, as the code has it. In a pass of the worker that takes \<^verbatim>\<open>sos\<close> from the queue while
  the standing command is \<^verbatim>\<open>alarm\<close>: when the first call returns and the store answers and
  holds a device identity at the second read, \<^verbatim>\<open>check_alarm_queue\<close> is called with \<^verbatim>\<open>sos\<close>
  and then with \<^verbatim>\<open>alarm\<close> within this pass, each call enters \<^verbatim>\<open>activate_alarm\<close>, and the
  requests of the pass are the login request of the first submission, its episode request
  for the SOS event if that login gave a session, the login request of the second
  submission, and its episode request for the alarm event if that login gave a session.
  When the first call raises, \<^verbatim>\<open>check_alarm_queue\<close> is called once in this pass, with \<^verbatim>\<open>sos\<close>.
\<close>

theorem sos_then_alarm_when_first_call_returns:
  assumes "th_alarm_queue (fst w) @ arrivals e = ''sos'' # rest"
    and "th_alarm_status (fst w) = ''alarm''"
  shows "(up (arrive (sos_call e) (insta_r (redisToIs (fst w)))) \<and> \<not> call_raises (sos_call e) \<and>
          up (arrive (last_call e) (arrive (sos_call e) (insta_r (redisToIs (fst w))))) \<and>
          k_trigger_dev
            (arrive (last_call e) (arrive (sos_call e) (insta_r (redisToIs (fst w))))) \<noteq> None \<longrightarrow>
            entered ''check_alarm_queue'' (snd (snd (tick e w))) =
              entered ''check_alarm_queue'' (snd w) @ [''sos'', ''alarm''] \<and>
            entered ''activate_alarm'' (snd (snd (tick e w))) =
              entered ''activate_alarm'' (snd w) @ [''sos'', ''alarm''] \<and>
            posted (snd (snd (tick e w))) =
              posted (snd w) @
                ''system/session?embedded=user'' #
                (if login_session (login (sos_call e))
                 then [''events/'' @ sos_event_id (redisToIs (fst w)) @ ''/episodes''] else []) @
                ''system/session?embedded=user'' #
                (if login_session (login (last_call e))
                 then [''events/'' @ alarm_event_id (redisToIs (fst w)) @ ''/episodes'']
                 else [])) \<and>
         (\<not> up (arrive (sos_call e) (insta_r (redisToIs (fst w)))) \<or> call_raises (sos_call e) \<longrightarrow>
            (\<exists>err. fst (tick e w) = Raised err) \<and>
            entered ''check_alarm_queue'' (snd (snd (tick e w))) =
              entered ''check_alarm_queue'' (snd w) @ [''sos''])"
proof (intro conjI impI)
  let ?w3 = "((fst w)\<lparr>th_alarm_queue := rest, th_alarm_status_old := th_alarm_status (fst w),
                       th_alarm_status := ''sos''\<rparr>, snd w)"
  let ?w4 = "snd (call_check (sos_call e) ?w3)"
  let ?w5 = "((fst ?w4)\<lparr>th_alarm_status := th_alarm_status (fst w)\<rparr>, snd ?w4)"
  note a4 = tick_sos_after_first [where w = w and e = e and rest = rest]
  {
    assume ok: "up (arrive (sos_call e) (insta_r (redisToIs (fst w)))) \<and>
      \<not> call_raises (sos_call e) \<and>
      up (arrive (last_call e) (arrive (sos_call e) (insta_r (redisToIs (fst w))))) \<and>
      k_trigger_dev
        (arrive (last_call e) (arrive (sos_call e) (insta_r (redisToIs (fst w))))) \<noteq> None"
    then have first: "fst (call_check (sos_call e) ?w3) = Returned ()"
      by (simp add: tick_sos_first_returns)
    note t = tick_sos_first(1) [OF assms(1) first]
    have e4: "entered ''activate_alarm'' (snd ?w4) = entered ''activate_alarm'' (snd w) @ [''sos'']"
      using call_check_sos_entered [of ?w3 "sos_call e"] ok by simp
    have p4: "posted (snd ?w4) =
        posted (snd w) @ ''system/session?embedded=user'' #
          (if login_session (login (sos_call e))
           then [''events/'' @ sos_event_id (redisToIs (fst w)) @ ''/episodes''] else [])"
      using call_check_sos_posted [of ?w3 "sos_call e"] ok by simp
    have s5: "th_alarm_status (fst ?w5) = ''alarm''"
      "up (arrive (last_call e) (insta_r (redisToIs (fst ?w5))))"
      "k_trigger_dev (arrive (last_call e) (insta_r (redisToIs (fst ?w5)))) \<noteq> None"
      "alarm_event_id (redisToIs (fst ?w5)) = alarm_event_id (redisToIs (fst w))"
      using ok assms(2) by (simp_all add: call_check_fields call_check_store call_check_ids)
    show "entered ''check_alarm_queue'' (snd (snd (tick e w))) =
              entered ''check_alarm_queue'' (snd w) @ [''sos'', ''alarm'']"
      unfolding t using assms(2) by (simp add: call_check_entered a4)
    show "entered ''activate_alarm'' (snd (snd (tick e w))) =
              entered ''activate_alarm'' (snd w) @ [''sos'', ''alarm'']"
      unfolding t using call_check_alarm_entered [OF s5(1-3)] by (simp add: e4)
    show "posted (snd (snd (tick e w))) =
              posted (snd w) @
                ''system/session?embedded=user'' #
                (if login_session (login (sos_call e))
                 then [''events/'' @ sos_event_id (redisToIs (fst w)) @ ''/episodes''] else []) @
                ''system/session?embedded=user'' #
                (if login_session (login (last_call e))
                 then [''events/'' @ alarm_event_id (redisToIs (fst w)) @ ''/episodes'']
                 else [])"
      unfolding t using call_check_alarm_posted [OF s5(1-3)] by (simp add: p4 call_check_ids)
  }
  {
    assume bad: "\<not> up (arrive (sos_call e) (insta_r (redisToIs (fst w)))) \<or>
      call_raises (sos_call e)"
    from tick_sos_first_raises [OF this, where rest = rest]
    obtain err where first: "fst (call_check (sos_call e) ?w3) = Raised err" ..
    note t = tick_sos_first(2) [OF assms(1) first]
    show "\<exists>err. fst (tick e w) = Raised err" unfolding t by simp
    show "entered ''check_alarm_queue'' (snd (snd (tick e w))) =
              entered ''check_alarm_queue'' (snd w) @ [''sos'']"
      unfolding t by (simp add: a4)
  }
qed

subsection \<open>The passes of the examples\<close>

lemma sos_pass_facts:
  "th_alarm_queue (fst worker_armed) @ arrivals sos_tick = ''sos'' # []"
  "th_alarm_queue (fst worker_armed) @ arrivals sos_tick_garbled = ''sos'' # []"
  "th_alarm_queue (fst worker_armed) @ arrivals sos_tick_timed_out = ''sos'' # []"
  "th_alarm_status (fst worker_armed) = ''alarm''"
  "snd worker_armed = []"
  "arrivals idle_tick = []"
  "sos_event_id (redisToIs (fst worker_armed)) = ''18''"
  "alarm_event_id (redisToIs (fst worker_armed)) = ''17''"
  by (simp_all add: worker_armed_def sos_tick_def sos_tick_garbled_def sos_tick_timed_out_def
      idle_tick_def insta_example_def)

lemma sos_tick_calls:
  "up (arrive (sos_call sos_tick) (insta_r (redisToIs (fst worker_armed))))"
  "\<not> call_raises (sos_call sos_tick)"
  "up (arrive (last_call sos_tick)
        (arrive (sos_call sos_tick) (insta_r (redisToIs (fst worker_armed)))))"
  "k_trigger_dev (arrive (last_call sos_tick)
        (arrive (sos_call sos_tick) (insta_r (redisToIs (fst worker_armed))))) = Some ''door''"
  "\<not> call_raises (last_call sos_tick)"
  "login_session (login (sos_call sos_tick))"
  "login_session (login (last_call sos_tick))"
  by (simp_all add: worker_armed_def sos_tick_def insta_example_def store_detected_def
      store_armed_def store_empty_def accepted_def conflict_def untouched_def call_raises_def)

lemma sos_tick_garbled_calls:
  "call_raises (sos_call sos_tick_garbled)"
  by (simp add: sos_tick_garbled_def garbled_def accepted_def call_raises_def)

lemma tick_sos_returns:
  assumes q: "th_alarm_queue (fst w) @ arrivals e = ''sos'' # rest"
    and "up (arrive (sos_call e) (insta_r (redisToIs (fst w))))"
    and "up (arrive (last_call e) (arrive (sos_call e) (insta_r (redisToIs (fst w)))))"
    and "\<not> call_raises (sos_call e)" and "\<not> call_raises (last_call e)"
  shows "fst (tick e w) = Returned ()"
proof -
  let ?w3 = "((fst w)\<lparr>th_alarm_queue := rest, th_alarm_status_old := th_alarm_status (fst w),
                       th_alarm_status := ''sos''\<rparr>, snd w)"
  have first: "fst (call_check (sos_call e) ?w3) = Returned ()"
    by (rule call_check_returns) (simp_all add: assms)
  show ?thesis
    unfolding tick_sos_first(1) [OF q first]
    by (rule call_check_returns) (simp_all add: call_check_store assms)
qed

lemma sos_tick_returns: "fst (tick sos_tick worker_armed) = Returned ()"
  by (rule tick_sos_returns [OF sos_pass_facts(1) sos_tick_calls(1,3,2,5)])

lemma sos_tick_timed_out_calls:
  "up (arrive (sos_call sos_tick_timed_out) (insta_r (redisToIs (fst worker_armed))))"
  "\<not> call_raises (sos_call sos_tick_timed_out)"
  "up (arrive (last_call sos_tick_timed_out)
        (arrive (sos_call sos_tick_timed_out) (insta_r (redisToIs (fst worker_armed)))))"
  "k_trigger_dev (arrive (last_call sos_tick_timed_out)
        (arrive (sos_call sos_tick_timed_out) (insta_r (redisToIs (fst worker_armed))))) =
     Some ''door''"
  "\<not> login_session (login (sos_call sos_tick_timed_out))"
  "\<not> login_session (login (last_call sos_tick_timed_out))"
  by (simp_all add: worker_armed_def sos_tick_timed_out_def insta_example_def store_detected_def
      store_armed_def store_empty_def accepted_def timed_out_def untouched_def call_raises_def)

theorem sos_restored_when_first_call_returns_witness:
  "th_alarm_status_old (fst (snd (tick sos_tick worker_armed))) = ''alarm'' \<and>
   th_alarm_status (fst (snd (tick sos_tick worker_armed))) = ''alarm'' \<and>
   th_alarm_queue (fst (snd (tick sos_tick worker_armed))) = [] \<and>
   entered ''check_alarm_queue'' (snd (snd (tick sos_tick worker_armed))) = [''sos'', ''alarm''] \<and>
   entered ''check_alarm_queue'' (snd (snd (tick idle_tick (snd (tick sos_tick worker_armed))))) =
     [''sos'', ''alarm'', ''alarm''] \<and>
   th_alarm_status_old (fst (snd (tick sos_tick_garbled worker_armed))) = ''alarm'' \<and>
   th_alarm_status (fst (snd (tick sos_tick_garbled worker_armed))) = ''sos'' \<and>
   entered ''check_alarm_queue'' (snd (snd (tick sos_tick_garbled worker_armed))) = [''sos'']"
  using sos_restored_when_first_call_returns [OF sos_pass_facts(1), where e' = idle_tick]
    sos_restored_when_first_call_returns [OF sos_pass_facts(2)]
    sos_tick_calls(1,2) sos_tick_garbled_calls sos_tick_returns sos_pass_facts(4-6)
  by simp

text \<open>
  A pass that takes \<^verbatim>\<open>sos\<close> from the queue while the standing command is \<^verbatim>\<open>alarm\<close>, and
  whose login is answered with status 200 and a text that is not JSON: the call of
  \<^verbatim>\<open>check_alarm_queue\<close> raises, and the current command is left at \<^verbatim>\<open>sos\<close>.
\<close>

theorem sos_left_current_counterexample:
  "th_alarm_queue (fst worker_armed) @ arrivals sos_tick_garbled = [''sos''] \<and>
   th_alarm_status (fst worker_armed) = ''alarm'' \<and>
   fst (tick sos_tick_garbled worker_armed) = Raised JSONDecodeError \<and>
   th_alarm_status (fst (snd (tick sos_tick_garbled worker_armed))) = ''sos''"
  by code_simp

theorem sos_then_alarm_when_first_call_returns_witness:
  "entered ''check_alarm_queue'' (snd (snd (tick sos_tick worker_armed))) = [''sos'', ''alarm''] \<and>
   entered ''activate_alarm'' (snd (snd (tick sos_tick worker_armed))) = [''sos'', ''alarm''] \<and>
   posted (snd (snd (tick sos_tick worker_armed))) =
     [''system/session?embedded=user'', ''events/18/episodes'',
      ''system/session?embedded=user'', ''events/17/episodes''] \<and>
   posted (snd (snd (tick sos_tick_timed_out worker_armed))) =
     [''system/session?embedded=user'', ''system/session?embedded=user''] \<and>
   entered ''check_alarm_queue'' (snd (snd (tick sos_tick_garbled worker_armed))) = [''sos'']"
  using sos_then_alarm_when_first_call_returns [OF sos_pass_facts(1,4)]
    sos_then_alarm_when_first_call_returns [OF sos_pass_facts(3,4)]
    sos_then_alarm_when_first_call_returns [OF sos_pass_facts(2,4)]
    sos_tick_calls sos_tick_timed_out_calls sos_tick_garbled_calls sos_pass_facts(5,7,8)
  by simp

text \<open>
  The same pass with the device identity in the store: \<^verbatim>\<open>check_alarm_queue\<close> is called once,
  with \<^verbatim>\<open>sos\<close>, and the one request of the pass is the login request of the SOS; no
  submission of the standard alarm is begun.
\<close>

theorem one_call_in_pass_counterexample:
  "th_alarm_queue (fst worker_armed) @ arrivals sos_tick_garbled = [''sos''] \<and>
   th_alarm_status (fst worker_armed) = ''alarm'' \<and>
   k_trigger_dev (insta_r (redisToIs (fst worker_armed))) = Some ''door'' \<and>
   entered ''check_alarm_queue'' (snd (snd (tick sos_tick_garbled worker_armed))) = [''sos''] \<and>
   entered ''activate_alarm'' (snd (snd (tick sos_tick_garbled worker_armed))) = [''sos''] \<and>
   posted (snd (snd (tick sos_tick_garbled worker_armed))) = [''system/session?embedded=user'']"
  by code_simp

subsection \<open>The record of a detection stays in the store\<close>

lemma save_frame_store: "insta_r (fst (snd (save_frame ok v))) = insta_r (fst v)"
  by (simp add: save_frame_frame)

lemma idle_tick_resubmits:
  assumes "th_alarm_queue (fst w) @ arrivals t = []" and "th_alarm_status (fst w) = ''alarm''"
    and "\<forall>st. arrive (last_call t) st = st" and "\<not> call_raises (last_call t)"
    and "up (insta_r (redisToIs (fst w)))" and "k_trigger_dev (insta_r (redisToIs (fst w))) = Some d"
  shows "fst (tick t w) = Returned ()"
    and "insta_r (redisToIs (fst (snd (tick t w)))) = insta_r (redisToIs (fst w))"
    and "th_alarm_queue (fst (snd (tick t w))) = []"
    and "th_alarm_status (fst (snd (tick t w))) = ''alarm''"
    and "entered ''activate_alarm'' (snd (snd (tick t w))) =
           entered ''activate_alarm'' (snd w) @ [''alarm'']"
proof -
  note t = tick_idle [OF assms(1)]
  show r: "fst (tick t w) = Returned ()"
    unfolding t by (rule call_check_returns) (simp_all add: assms)
  show "insta_r (redisToIs (fst (snd (tick t w)))) = insta_r (redisToIs (fst w))"
    unfolding t by (simp add: call_check_store assms(3))
  show "th_alarm_queue (fst (snd (tick t w))) = []"
    unfolding t using assms(1) by (simp add: call_check_fields)
  show "th_alarm_status (fst (snd (tick t w))) = ''alarm''"
    unfolding t by (simp add: call_check_fields assms(2))
  show "entered ''activate_alarm'' (snd (snd (tick t w))) =
           entered ''activate_alarm'' (snd w) @ [''alarm'']"
    using r unfolding t
    by (rule call_check_alarm) (simp_all add: assms)
qed

lemma idle_ticks_resubmit:
  assumes "\<forall>t \<in> set ts. arrivals t = [] \<and> (\<forall>st. arrive (last_call t) st = st) \<and>
             \<not> call_raises (last_call t)"
    and "th_alarm_queue (fst w) = []" and "th_alarm_status (fst w) = ''alarm''"
    and "up (insta_r (redisToIs (fst w)))" and "k_trigger_dev (insta_r (redisToIs (fst w))) = Some d"
  shows "fst (worker_run ts w) = Returned () \<and>
         insta_r (redisToIs (fst (snd (worker_run ts w)))) = insta_r (redisToIs (fst w)) \<and>
         entered ''activate_alarm'' (snd (snd (worker_run ts w))) =
           entered ''activate_alarm'' (snd w) @ replicate (length ts) ''alarm''"
  using assms
proof (induction ts arbitrary: w)
  case Nil
  then show ?case by simp
next
  case (Cons t ts)
  from Cons.prems(1) have t: "arrivals t = []" "\<forall>st. arrive (last_call t) st = st"
    "\<not> call_raises (last_call t)" by simp_all
  from Cons.prems(2) t(1) have q: "th_alarm_queue (fst w) @ arrivals t = []" by simp
  note one = idle_tick_resubmits [OF q Cons.prems(3) t(2,3) Cons.prems(4,5)]
  obtain res v where c: "tick t w = (res, v)" by (cases "tick t w")
  with one have v: "res = Returned ()" "insta_r (redisToIs (fst v)) = insta_r (redisToIs (fst w))"
    "th_alarm_queue (fst v) = []" "th_alarm_status (fst v) = ''alarm''"
    "entered ''activate_alarm'' (snd v) = entered ''activate_alarm'' (snd w) @ [''alarm'']"
    by simp_all
  have "fst (worker_run ts v) = Returned () \<and>
         insta_r (redisToIs (fst (snd (worker_run ts v)))) = insta_r (redisToIs (fst v)) \<and>
         entered ''activate_alarm'' (snd (snd (worker_run ts v))) =
           entered ''activate_alarm'' (snd v) @ replicate (length ts) ''alarm''"
    by (rule Cons.IH) (use Cons.prems v in simp_all)
  then show ?case
    by (simp add: c v replicate_append_same)
qed

lemma start_redis_script_flushes:
  assumes "fst (start_redis_script k w) = Returned ()"
  shows "k_trigger_dev (redis (fst (snd (start_redis_script k w)))) = None \<and>
         k_frame (redis (fst (snd (start_redis_script k w)))) = None"
  using assms
  by (auto simp: start_redis_script_def flusher_def flushall_def change_status_def
      set_trigger_status_def logger_def toggle_full_screen_def Let_def split: if_splits)

text \<open>
  C9, as the code has it. Neither \<^verbatim>\<open>check_alarm_queue\<close> nor \<^verbatim>\<open>save_frame\<close> writes to the
  store: what it holds after a call is what the other processes made of it. So while the
  standing command is \<^verbatim>\<open>alarm\<close>, nothing arrives in the queue and no other process touches
  the store, a device identity in the store is found again by every pass of the worker:
  each of them submits the standard alarm, and the store is the same after all of them.
  The device identity and the frame leave the store when the control panel arms the system:
  \<^verbatim>\<open>start_redis_script\<close> flushes it.
\<close>

theorem worker_reads_without_clearing:
  "insta_r (fst (snd (check_alarm_queue e status v))) = arrive e (insta_r (fst v)) \<and>
   insta_r (fst (snd (save_frame ok v))) = insta_r (fst v) \<and>
   ((\<forall>t \<in> set ts. arrivals t = [] \<and> (\<forall>st. arrive (last_call t) st = st) \<and>
        \<not> call_raises (last_call t)) \<and>
    th_alarm_queue (fst w) = [] \<and> th_alarm_status (fst w) = ''alarm'' \<and>
    up (insta_r (redisToIs (fst w))) \<and> k_trigger_dev (insta_r (redisToIs (fst w))) = Some d \<longrightarrow>
      fst (worker_run ts w) = Returned () \<and>
      insta_r (redisToIs (fst (snd (worker_run ts w)))) = insta_r (redisToIs (fst w)) \<and>
      entered ''activate_alarm'' (snd (snd (worker_run ts w))) =
        entered ''activate_alarm'' (snd w) @ replicate (length ts) ''alarm'') \<and>
   (fst (start_redis_script k p) = Returned () \<longrightarrow>
      k_trigger_dev (redis (fst (snd (start_redis_script k p)))) = None \<and>
      k_frame (redis (fst (snd (start_redis_script k p)))) = None)"
  using check_alarm_queue_store [of e status v] save_frame_store [of ok v]
    idle_ticks_resubmit [of ts w d] start_redis_script_flushes [of k p]
  by blast

lemma idle_tick_facts:
  "arrivals idle_tick = []" "\<forall>st. arrive (last_call idle_tick) st = st"
  "\<not> call_raises (last_call idle_tick)"
  by (simp_all add: idle_tick_def accepted_def untouched_def call_raises_def)

lemma worker_armed_facts:
  "th_alarm_queue (fst worker_armed) = []" "th_alarm_status (fst worker_armed) = ''alarm''"
  "up (insta_r (redisToIs (fst worker_armed)))"
  "k_trigger_dev (insta_r (redisToIs (fst worker_armed))) = Some ''door''"
  "insta_r (redisToIs (fst worker_armed)) = store_detected" "snd worker_armed = []"
  by (simp_all add: worker_armed_def insta_example_def store_detected_def store_armed_def
      store_empty_def)

theorem worker_reads_without_clearing_witness:
  "fst (worker_run [idle_tick, idle_tick] worker_armed) = Returned () \<and>
   insta_r (redisToIs (fst (snd (worker_run [idle_tick, idle_tick] worker_armed)))) =
     store_detected \<and>
   entered ''activate_alarm'' (snd (snd (worker_run [idle_tick, idle_tick] worker_armed))) =
     [''alarm'', ''alarm''] \<and>
   k_trigger_dev (redis (fst panel_detected)) = Some ''door'' \<and>
   fst (start_redis_script ''alarm'' panel_detected) = Returned () \<and>
   k_trigger_dev (redis (fst (snd (start_redis_script ''alarm'' panel_detected)))) = None \<and>
   k_frame (redis (fst (snd (start_redis_script ''alarm'' panel_detected)))) = None"
proof -
  have 1: "\<forall>t \<in> set [idle_tick, idle_tick]. arrivals t = [] \<and>
          (\<forall>st. arrive (last_call t) st = st) \<and> \<not> call_raises (last_call t)"
    using idle_tick_facts by simp
  have 2: "up (redis (fst panel_detected))"
    "k_trigger_dev (redis (fst panel_detected)) = Some ''door''"
    by (simp_all add: panel_detected_def PinGuiApp_init_def store_detected_def store_armed_def
        store_empty_def)
  note 3 = start_redis_script_returns [OF 2(1), of "''alarm''"]
  from worker_reads_without_clearing [of _ _ _ _ "[idle_tick, idle_tick]" worker_armed "''door''"
      "''alarm''" panel_detected] 1 2(2) 3 worker_armed_facts
  show ?thesis by (simp add: numeral_2_eq_2)
qed

text \<open>
  C9 as the specification states it fails: after a pass of the worker has processed the
  detection of the door sensor, the store still holds the device identity and the frame,
  and the next pass submits the same detection again.
\<close>

theorem record_not_cleared_counterexample:
  "k_trigger_dev (insta_r (redisToIs (fst (snd (tick idle_tick worker_armed))))) = Some ''door'' \<and>
   k_frame (insta_r (redisToIs (fst (snd (tick idle_tick worker_armed))))) =
     Some (''2021_05_04_12_00_00'', ''/9j/4AAQ'') \<and>
   entered ''activate_alarm'' (snd (snd (worker_run [idle_tick, idle_tick] worker_armed))) =
     [''alarm'', ''alarm'']"
proof -
  have q: "th_alarm_queue (fst worker_armed) @ arrivals idle_tick = []"
    by (simp add: worker_armed_facts idle_tick_facts)
  have 1: "insta_r (redisToIs (fst (snd (tick idle_tick worker_armed)))) = store_detected"
    using idle_tick_resubmits(2) [OF q worker_armed_facts(2) idle_tick_facts(2,3)
        worker_armed_facts(3,4)]
    by (simp add: worker_armed_facts)
  have "\<forall>t \<in> set [idle_tick, idle_tick]. arrivals t = [] \<and>
          (\<forall>st. arrive (last_call t) st = st) \<and> \<not> call_raises (last_call t)"
    using idle_tick_facts by simp
  from idle_ticks_resubmit [OF this worker_armed_facts(1-4)]
  have 2: "entered ''activate_alarm'' (snd (snd (worker_run [idle_tick, idle_tick] worker_armed)))
             = [''alarm'', ''alarm'']"
    by (simp add: worker_armed_facts numeral_2_eq_2)
  show ?thesis
    unfolding 1 using 2 by (simp add: store_detected_def)
qed

end
